theory Spec2Isabelle
  imports Complex_Main "HOL-Library.Extended_Nat"
begin

section \<open>Python values\<close>

text \<open>
  A Python \<open>str\<close> is a sequence of code points. It is modelled as a \<^typ>\<open>string\<close> whose
  characters are the code points below 256 (Latin-1); code points from 256 on are outside
  the model. On that range \<open>str.isspace\<close>, \<open>str.isdigit\<close> and \<open>str.lower\<close> are the
  finite tables below.
\<close>

definition py_whitespace :: "char list" where
  "py_whitespace = [CHR 0x09, CHR 0x0A, CHR 0x0B, CHR 0x0C, CHR 0x0D,
                    CHR 0x1C, CHR 0x1D, CHR 0x1E, CHR 0x1F, CHR 0x20, CHR 0x85, CHR 0xA0]"

definition isspace :: "char \<Rightarrow> bool" where
  "isspace c = (c \<in> set py_whitespace)"

definition isdigit :: "char \<Rightarrow> bool" where
  "isdigit c = (c \<in> set (''0123456789'' @ [CHR 0xB2, CHR 0xB3, CHR 0xB9]))"

definition py_lstrip :: "string \<Rightarrow> string" where
  "py_lstrip s = dropWhile isspace s"

definition py_rstrip :: "string \<Rightarrow> string" where
  "py_rstrip s = rev (dropWhile isspace (rev s))"

text \<open>\<open>s.strip()\<close>: leading and trailing whitespace removed.\<close>

definition py_strip :: "string \<Rightarrow> string" where
  "py_strip s = py_rstrip (py_lstrip s)"

text \<open>\<open>s.split(sep)\<close> for a one-character separator: always at least one piece.\<close>

fun py_split :: "string \<Rightarrow> char \<Rightarrow> string list" where
  "py_split [] sep = [[]]"
| "py_split (c # cs) sep =
     (if c = sep then [] # py_split cs sep
      else (case py_split cs sep of
              [] \<Rightarrow> [[c]]
            | w # ws \<Rightarrow> (c # w) # ws))"

text \<open>
  \<open>s.split(sep, 1)[1]\<close>: what follows the first separator. The source takes it only
  where the separator occurs in \<open>s\<close>.
\<close>

definition after_first :: "char \<Rightarrow> string \<Rightarrow> string" where
  "after_first sep s = tl (dropWhile (\<lambda>c. c \<noteq> sep) s)"

text \<open>\<open>sep.join(pieces)\<close>.\<close>

fun py_join :: "string \<Rightarrow> string list \<Rightarrow> string" where
  "py_join sep [] = []"
| "py_join sep [p] = p"
| "py_join sep (p # q # ps) = p @ sep @ py_join sep (q # ps)"

definition startswith :: "string \<Rightarrow> string \<Rightarrow> bool" where
  "startswith s p = (take (length p) s = p)"

definition endswith :: "string \<Rightarrow> string \<Rightarrow> bool" where
  "endswith s p = (length p \<le> length s \<and> drop (length s - length p) s = p)"

text \<open>The slice \<open>xs[:n]\<close>: a negative \<open>n\<close> counts from the end.\<close>

definition slice_to :: "'a list \<Rightarrow> int \<Rightarrow> 'a list" where
  "slice_to xs n = (if 0 \<le> n then take (nat n) xs else take (length xs - nat (- n)) xs)"

text \<open>The slice \<open>s[1:-1]\<close>: without the first and the last element.\<close>

definition slice_inner :: "'a list \<Rightarrow> 'a list" where
  "slice_inner s = butlast (tl s)"

text \<open>\<open>str.lower\<close> on Latin-1: the letters A to Z and the accented capitals.\<close>

definition upper_chars :: "char list" where
  "upper_chars = ''ABCDEFGHIJKLMNOPQRSTUVWXYZ'' @
     [CHR 0xC0, CHR 0xC1, CHR 0xC2, CHR 0xC3, CHR 0xC4, CHR 0xC5, CHR 0xC6, CHR 0xC7,
      CHR 0xC8, CHR 0xC9, CHR 0xCA, CHR 0xCB, CHR 0xCC, CHR 0xCD, CHR 0xCE, CHR 0xCF,
      CHR 0xD0, CHR 0xD1, CHR 0xD2, CHR 0xD3, CHR 0xD4, CHR 0xD5, CHR 0xD6,
      CHR 0xD8, CHR 0xD9, CHR 0xDA, CHR 0xDB, CHR 0xDC, CHR 0xDD, CHR 0xDE]"

definition lower_chars :: "char list" where
  "lower_chars = ''abcdefghijklmnopqrstuvwxyz'' @
     [CHR 0xE0, CHR 0xE1, CHR 0xE2, CHR 0xE3, CHR 0xE4, CHR 0xE5, CHR 0xE6, CHR 0xE7,
      CHR 0xE8, CHR 0xE9, CHR 0xEA, CHR 0xEB, CHR 0xEC, CHR 0xED, CHR 0xEE, CHR 0xEF,
      CHR 0xF0, CHR 0xF1, CHR 0xF2, CHR 0xF3, CHR 0xF4, CHR 0xF5, CHR 0xF6,
      CHR 0xF8, CHR 0xF9, CHR 0xFA, CHR 0xFB, CHR 0xFC, CHR 0xFD, CHR 0xFE]"

definition lower_char :: "char \<Rightarrow> char" where
  "lower_char c = (case map_of (zip upper_chars lower_chars) c of None \<Rightarrow> c | Some l \<Rightarrow> l)"

definition py_lower :: "string \<Rightarrow> string" where
  "py_lower s = map lower_char s"

text \<open>\<open>str(n)\<close> for a natural number, as the f-string in \<open>format_context\<close> prints it.\<close>

fun show_nat :: "nat \<Rightarrow> string" where
  "show_nat n =
     (if n < 10 then [''0123456789'' ! n]
      else show_nat (n div 10) @ [''0123456789'' ! (n mod 10)])"

text \<open>
  The exceptions of the source are instances of \<open>Exception\<close>, the class that its
  \<open>except\<close> clauses catch. \<open>CallFailure\<close> stands for whatever a call to an external
  service raises.
\<close>

datatype exn = AttributeError | KeyError | CallFailure string

section \<open>Industry taxonomy (onace\_categories.py)\<close>

record OnaceCategory =
  code :: string
  name_german :: string
  name_english :: string
  description :: string

text \<open>The class attribute \<open>OnaceManager.ONACE_CATEGORIES\<close>, a dict in insertion order.\<close>

definition ONACE_CATEGORIES :: "(string \<times> OnaceCategory) list" where
  "ONACE_CATEGORIES = [
    (''0'', \<lparr>code = ''0'',
       name_german = ''Allgemein'',
       name_english = ''General'',
       description = ''Applies to all industries''\<rparr>),
    (''A'', \<lparr>code = ''A'',
       name_german = ''LAND- UND FORSTWIRTSCHAFT, FISCHEREI (01 - 03)'',
       name_english = ''AGRICULTURE, FORESTRY, AND FISHING (01 - 03)'',
       description = ''''\<rparr>),
    (''B'', \<lparr>code = ''B'',
       name_german = ''BERGBAU UND GEWINNUNG VON STEINEN UND ERDEN (05 - 09)'',
       name_english = ''MINING AND QUARRYING (05 - 09)'',
       description = ''''\<rparr>),
    (''C'', \<lparr>code = ''C'',
       name_german = ''HERSTELLUNG VON WAREN (10 - 33)'',
       name_english = ''MANUFACTURING (10 - 33)'',
       description = ''''\<rparr>),
    (''D'', \<lparr>code = ''D'',
       name_german = ''ENERGIEVERSORGUNG (35)'',
       name_english = ''ENERGY SUPPLY (35)'',
       description = ''''\<rparr>),
    (''E'', \<lparr>code = ''E'',
       name_german = ''WASSERVERSORGUNG; ABWASSER- UND ABFALLENTSORGUNG UND BESEITIGUNG VON UMWELTVERSCHMUTZUNGEN (36 - 39)'',
       name_english = ''WATER SUPPLY; SEWAGE AND WASTE DISPOSAL AND REMOVAL OF ENVIRONMENTAL POLLUTION (36 - 39)'',
       description = ''''\<rparr>),
    (''F'', \<lparr>code = ''F'',
       name_german = ''BAU (41 - 43)'',
       name_english = ''CONSTRUCTION (41 - 43)'',
       description = ''''\<rparr>),
    (''G'', \<lparr>code = ''G'',
       name_german = ''HANDEL (46 - 47)'',
       name_english = ''TRADE (46 - 47)'',
       description = ''''\<rparr>),
    (''H'', \<lparr>code = ''H'',
       name_german = ''VERKEHR UND LAGEREI (49 - 53)'',
       name_english = ''TRANSPORT AND STORAGE (49 - 53)'',
       description = ''''\<rparr>),
    (''I'', \<lparr>code = ''I'',
       name_german = ''BEHERBERGUNG UND GASTRONOMIE (55 - 56)'',
       name_english = ''ACCOMMODATION AND CATERING (55 - 56)'',
       description = ''''\<rparr>),
    (''J'', \<lparr>code = ''J'',
       name_german = ''VERLAGSWESEN, RUNDFUNK SOWIE ERSTELLUNG UND VERBREITUNG VON MEDIENINHALTEN (58 - 60)'',
       name_english = ''PUBLISHING, BROADCASTING AND PRODUCTION AND DISTRIBUTION OF MEDIA CONTENT (58 - 60)'',
       description = ''''\<rparr>),
    (''K'', \<lparr>code = ''K'',
       name_german = ''ERBRINGUNG VON FINANZ- UND VERSICHERUNGSDIENSTLEISTUNGEN (64 - 66)'',
       name_english = ''FINANCIAL AND INSURANCE SERVICES (64 - 66)'',
       description = ''''\<rparr>),
    (''L'', \<lparr>code = ''L'',
       name_german = ''GRUNDST'' @ [CHR 0xDC] @ ''CKS- UND WOHNUNGSWESEN (68)'',
       name_english = ''REAL ESTATE ACTIVITIES (68)'',
       description = ''''\<rparr>),
    (''M'', \<lparr>code = ''M'',
       name_german = ''ERBRINGUNG VON FREIBERUFLICHEN, WISSENSCHAFTLICHEN UND TECHNISCHEN DIENSTLEISTUNGEN (69 - 75)'',
       name_english = ''PROFESSIONAL, SCIENTIFIC AND TECHNICAL ACTIVITIES (69 - 75)'',
       description = ''''\<rparr>),
    (''N'', \<lparr>code = ''N'',
       name_german = ''ERBRINGUNG VON SONSTIGEN WIRTSCHAFTLICHEN DIENSTLEISTUNGEN (77 - 82)'',
       name_english = ''ADMINISTRATIVE AND SUPPORT SERVICE ACTIVITIES (77 - 82)'',
       description = ''''\<rparr>),
    (''O'', \<lparr>code = ''O'',
       name_german = [CHR 0xD6] @ ''FFENTLICHE VERWALTUNG, VERTEIDIGUNG; SOZIALVERSICHERUNG (84)'',
       name_english = ''PUBLIC ADMINISTRATION, DEFENCE; COMPULSORY SOCIAL SECURITY (84)'',
       description = ''''\<rparr>),
    (''P'', \<lparr>code = ''P'',
       name_german = ''ERZIEHUNG UND UNTERRICHT (85)'',
       name_english = ''EDUCATION (85)'',
       description = ''''\<rparr>),
    (''Q'', \<lparr>code = ''Q'',
       name_german = ''GESUNDHEITSWESEN UND SOZIALE DIENSTLEISTUNGEN (86 - 88)'',
       name_english = ''HUMAN HEALTH AND SOCIAL WORK ACTIVITIES (86 - 88)'',
       description = ''''\<rparr>),
    (''R'', \<lparr>code = ''R'',
       name_german = ''KUNST, UNTERHALTUNG UND ERHOLUNG (90 - 93)'',
       name_english = ''ARTS, ENTERTAINMENT AND RECREATION (90 - 93)'',
       description = ''''\<rparr>),
    (''S'', \<lparr>code = ''S'',
       name_german = ''ERBRINGUNG VON SONSTIGEN DIENSTLEISTUNGEN (94 - 96)'',
       name_english = ''OTHER SERVICE ACTIVITIES (94 - 96)'',
       description = ''''\<rparr>),
    (''T'', \<lparr>code = ''T'',
       name_german = ''PRIVATE HAUSHALTE MIT HAUSHALTSPERSONAL; ERBRINGUNG VON DIENSTLEISTUNGEN F'' @ [CHR 0xDC] @ ''R PRIVATE HAUSHALTE ALS ARBEITGEBER (97 - 98)'',
       name_english = ''ACTIVITIES OF HOUSEHOLDS AS EMPLOYERS; UNDIFFERENTIATED GOODS- AND SERVICES-PRODUCING ACTIVITIES OF HOUSEHOLDS FOR OWN USE (97 - 98)'',
       description = ''''\<rparr>),
    (''U'', \<lparr>code = ''U'',
       name_german = ''EXTERRITORIALE ORGANISATIONEN UND K'' @ [CHR 0xD6] @ ''RPERSCHAFTEN (99)'',
       name_english = ''ACTIVITIES OF EXTRATERRITORIAL ORGANISATIONS AND BODIES (99)'',
       description = ''''\<rparr>)]"

text \<open>\<open>code in cls.ONACE_CATEGORIES\<close>: membership among the keys of the dict.\<close>

definition in_ONACE_CATEGORIES :: "string \<Rightarrow> bool" where
  "in_ONACE_CATEGORIES c = (map_of ONACE_CATEGORIES c \<noteq> None)"

definition get_category :: "string \<Rightarrow> OnaceCategory option" where
  "get_category c = map_of ONACE_CATEGORIES c"

text \<open>
  \<open>parse_onace_codes\<close>: the early return for a falsy argument or the literal \<open>nan\<close>, then
  the loop over the comma-separated pieces that adds the stripped piece to the set
  \<open>codes\<close> when it is a key of the catalog, then the default when the set stayed empty.
\<close>

definition parse_step :: "string \<Rightarrow> string set \<Rightarrow> string set" where
  "parse_step piece codes =
     (let c = py_strip piece
      in if c \<noteq> [] \<and> in_ONACE_CATEGORIES c then insert c codes else codes)"

definition parse_onace_codes :: "string \<Rightarrow> string set" where
  "parse_onace_codes onace_string =
     (if onace_string = [] \<or> onace_string = ''nan'' then {''0''}
      else let codes = fold parse_step (py_split onace_string CHR '','') {}
           in if codes = {} then insert ''0'' codes else codes)"

definition is_document_relevant :: "string set \<Rightarrow> string \<Rightarrow> bool" where
  "is_document_relevant document_onace_codes user_onace_code =
     (if ''0'' \<in> document_onace_codes then True
      else user_onace_code \<in> document_onace_codes)"

text \<open>
  A document is a dict; \<open>get_relevant_documents\<close> reads only its optional key
  \<open>onace_codes\<close>, the other keys are the record's extension.
\<close>

record document =
  onace_codes :: "string option"

definition doc_codes :: "'a document_scheme \<Rightarrow> string" where
  "doc_codes doc = (case onace_codes doc of None \<Rightarrow> ''0'' | Some s \<Rightarrow> s)"

definition get_relevant_documents ::
  "'a document_scheme list \<Rightarrow> string \<Rightarrow> 'a document_scheme list" where
  "get_relevant_documents documents user_onace_code =
     fold (\<lambda>doc relevant_docs.
             if is_document_relevant (parse_onace_codes (doc_codes doc)) user_onace_code
             then relevant_docs @ [doc] else relevant_docs)
          documents []"

text \<open>The keys of the catalog, written out.\<close>

definition ONACE_CODES :: "string list" where
  "ONACE_CODES = map (\<lambda>letter. [letter]) ''0ABCDEFGHIJKLMNOPQRSTU''"

section \<open>Chunks and external services\<close>

text \<open>
  A chunk is a dict that the source reads with \<open>get\<close> and a default, so every key is
  optional. The score is a distance, lower is better; its type is any linear order with a
  greatest element, as the floating-point numbers without NaN are with \<open>float('inf')\<close>
  on top.
\<close>

record chunk_metadata =
  filename :: "string option"
  is_vsme :: "bool option"

record 's chunk =
  chunk_id :: "string option"
  chunk_text :: "string option"
  score :: "'s option"
  metadata :: "chunk_metadata option"

text \<open>\<open>x.get("score", float('inf'))\<close>, the key of every sort.\<close>

definition score_key :: "('s::{linorder, order_top}) chunk \<Rightarrow> 's" where
  "score_key x = (case score x of None \<Rightarrow> top | Some s \<Rightarrow> s)"

text \<open>\<open>chunk.get("text", "")\<close>, the key of the deduplication.\<close>

definition text_key :: "'s chunk \<Rightarrow> string" where
  "text_key c = (case chunk_text c of None \<Rightarrow> [] | Some t \<Rightarrow> t)"

text \<open>\<open>chunk.get("metadata", {}).get("is_vsme", False)\<close>.\<close>

definition chunk_is_vsme :: "'s chunk \<Rightarrow> bool" where
  "chunk_is_vsme c =
     (case metadata c of
        None \<Rightarrow> False
      | Some m \<Rightarrow> (case is_vsme m of None \<Rightarrow> False | Some b \<Rightarrow> b))"

text \<open>\<open>chunk.get("metadata", {}).get("filename", "Unknown source")\<close>.\<close>

definition source_name :: "'s chunk \<Rightarrow> string" where
  "source_name c =
     (case metadata c of
        None \<Rightarrow> ''Unknown source''
      | Some m \<Rightarrow> (case filename m of None \<Rightarrow> ''Unknown source'' | Some f \<Rightarrow> f))"

text \<open>
  The services outside the repository's code, as the replies they give. A reply is
  \<open>Inl e\<close> when the call, or reading \<open>choices[0].message.content\<close> from its response,
  raises \<open>e\<close>; the content of a completion is optional (\<open>None\<close> in Python). The
  instruction texts, model names and sampling settings that the source sends with a
  completion request are literals of the source, so a reply is a function of the values
  the source computes:
  \<^item> \<open>expansion_reply query num_expansions\<close>, the completion in \<open>expand_query\<close>;
  \<^item> \<open>search_all_documents i eq top_k user_onace_code\<close>, the outcome of the \<open>i\<close>-th search
    task of a batch (two tasks with the same query may end differently);
  \<^item> \<open>synthesis_reply model temperature suffix context query\<close>, the completion in
    \<open>generate_answer\<close>, where \<open>suffix\<close> is what the source appends to its fixed system
    prompt;
  \<^item> \<open>classification_reply user_prompt\<close>, the completion in \<open>_classify_query_intent\<close>.
\<close>

record 's services =
  expansion_reply :: "string \<Rightarrow> int \<Rightarrow> exn + string option"
  search_all_documents :: "nat \<Rightarrow> string \<Rightarrow> int \<Rightarrow> string \<Rightarrow> exn + 's chunk list"
  synthesis_reply :: "string \<Rightarrow> real \<Rightarrow> string \<Rightarrow> string \<Rightarrow> string \<Rightarrow> exn + string option"
  classification_reply :: "string \<Rightarrow> exn + string option"

section \<open>Link detection (link\_detector.py)\<close>

text \<open>\<open>self.manager_links\<close>.\<close>

definition manager_links :: "(string \<times> string) list" where
  "manager_links = [
     (''water'', ''https://maps.wisa.bmluk.gv.at/emreg''),
     (''industry'', ''https://industry.eea.europa.eu/explore/explore-data-map/map''),
     (''nature'', ''https://natura2000.eea.europa.eu'')]"

text \<open>The dict of \<open>_get_industry_context\<close>.\<close>

definition industry_contexts :: "(string \<times> string) list" where
  "industry_contexts = [
    (''0'',
     ''General - All industries and sectors''),
    (''A'',
     ''Agriculture, Forestry and Fishing - Farming, crop production, livestock, forestry''),
    (''B'',
     ''Mining and Quarrying - Extraction of minerals, oil, gas''),
    (''C'',
     ''Manufacturing - Production of goods, factories, industrial facilities''),
    (''D'',
     ''Electricity, Gas, Steam and Air Conditioning Supply - Energy production''),
    (''E'',
     ''Water Supply; Sewerage, Waste Management and Remediation Activities - Water management, waste treatment''),
    (''F'',
     ''Construction - Building, infrastructure, construction activities''),
    (''G'',
     ''Wholesale and Retail Trade; Repair of Motor Vehicles and Motorcycles - Trading, retail''),
    (''H'',
     ''Transportation and Storage - Logistics, transport, shipping''),
    (''I'',
     ''Accommodation and Food Service Activities - Hotels, restaurants, tourism''),
    (''J'',
     ''Information and Communication - IT, telecommunications, media''),
    (''K'',
     ''Financial and Insurance Activities - Banking, insurance, financial services''),
    (''L'',
     ''Real Estate Activities - Property, real estate''),
    (''M'',
     ''Professional, Scientific and Technical Activities - Consulting, research, professional services''),
    (''N'',
     ''Administrative and Support Service Activities - Administrative services''),
    (''O'',
     ''Public Administration and Defence; Compulsory Social Security - Government, public sector''),
    (''P'',
     ''Education - Schools, universities, training''),
    (''Q'',
     ''Human Health and Social Work Activities - Healthcare, social services''),
    (''R'',
     ''Arts, Entertainment and Recreation - Entertainment, culture, sports''),
    (''S'',
     ''Other Service Activities - Other services''),
    (''T'',
     ''Activities of Households as Employers; Undifferentiated Goods- and Services-Producing Activities of Households for Own Use''),
    (''U'',
     ''Activities of Extraterritorial Organisations and Bodies - International organizations'')]"


definition get_industry_context :: "string \<Rightarrow> string" where
  "get_industry_context onace_code =
     (case map_of industry_contexts onace_code of
        Some d \<Rightarrow> d
      | None \<Rightarrow> ''Industry code '' @ onace_code @ '' - Unknown sector'')"

text \<open>The first 200 characters of the first three chunks, joined by a space.\<close>

definition context_text :: "'s chunk list \<Rightarrow> string" where
  "context_text chunks =
     (if chunks = [] then []
      else py_join '' '' (map (\<lambda>chunk. take 200 (text_key chunk)) (take 3 chunks)))"

definition user_prompt :: "string \<Rightarrow> string \<Rightarrow> string \<Rightarrow> string" where
  "user_prompt query industry_context ctx =
     ''User Query: '' @ [CHR 0x22] @ query @ [CHR 0x22, CHR 0x0A, CHR 0x0A] @
     ''Industry Context: '' @ industry_context @ [CHR 0x0A, CHR 0x0A] @
     ''Context from relevant documents:'' @ [CHR 0x0A] @ ctx @ [CHR 0x0A, CHR 0x0A] @
     ''Classify this query into one of the three categories, considering the user'' @
     [CHR 0x27] @ ''s industry context.''"

text \<open>
  The \<open>try\<close> block of \<open>_classify_query_intent\<close>: a content of \<open>None\<close> has no \<open>strip\<close>.
\<close>

definition classify_try :: "'s services \<Rightarrow> string \<Rightarrow> exn + string option" where
  "classify_try S prompt =
     (case classification_reply S prompt of
        Inl e \<Rightarrow> Inl e
      | Inr None \<Rightarrow> Inl AttributeError
      | Inr (Some content) \<Rightarrow>
          (let classification = py_lower (py_strip content)
           in if classification \<in> set [''water'', ''industry'', ''nature'']
              then Inr (Some classification) else Inr None))"

definition classify_query_intent ::
  "'s services \<Rightarrow> string \<Rightarrow> 's chunk list \<Rightarrow> string \<Rightarrow> string option" where
  "classify_query_intent S query chunks user_onace_code =
     (case classify_try S (user_prompt query (get_industry_context user_onace_code)
                             (context_text chunks)) of
        Inl e \<Rightarrow> None
      | Inr topic \<Rightarrow> topic)"

text \<open>
  \<open>get_relevant_links\<close>. Nothing in its \<open>try\<close> block raises, since
  \<open>_classify_query_intent\<close> catches its own exceptions and \<open>manager_links[topic]\<close> is read
  under the test \<open>topic in self.manager_links\<close>; its handler returns the empty list too.
\<close>

definition get_relevant_links ::
  "'s services \<Rightarrow> string \<Rightarrow> 's chunk list \<Rightarrow> string \<Rightarrow> string list" where
  "get_relevant_links S query chunks user_onace_code =
     (case classify_query_intent S query chunks user_onace_code of
        None \<Rightarrow> []
      | Some topic \<Rightarrow>
          (if topic \<noteq> [] then
             (case map_of manager_links topic of Some url \<Rightarrow> [url] | None \<Rightarrow> [])
           else []))"

section \<open>Retrieval and answer generation (rag.py)\<close>

subsection \<open>format\_context\<close>

text \<open>
  One pass of the loop of \<open>format_context\<close>. Without a \<open>metadata\<close> key the default is the
  string \<open>'Unknown source'\<close>, which has no \<open>get\<close>: AttributeError. \<open>chunk['text']\<close>
  without a \<open>text\<close> key is a KeyError.
\<close>

definition format_chunk :: "nat \<Rightarrow> 's chunk \<Rightarrow> exn + string" where
  "format_chunk i chunk =
     (case metadata chunk of
        None \<Rightarrow> Inl AttributeError
      | Some m \<Rightarrow>
          (let source = (case filename m of None \<Rightarrow> ''Unknown source'' | Some f \<Rightarrow> f)
           in case chunk_text chunk of
                None \<Rightarrow> Inl KeyError
              | Some t \<Rightarrow>
                  Inr (''[Chunk '' @ show_nat (i + 1) @ '' - Source: '' @ source @ '']'' @
                       [CHR 0x0A] @ t @ [CHR 0x0A])))"

fun formatted_chunks :: "nat \<Rightarrow> 's chunk list \<Rightarrow> exn + string list" where
  "formatted_chunks i [] = Inr []"
| "formatted_chunks i (chunk # rest) =
     (case format_chunk i chunk of
        Inl e \<Rightarrow> Inl e
      | Inr f \<Rightarrow>
          (case formatted_chunks (i + 1) rest of
             Inl e \<Rightarrow> Inl e
           | Inr fs \<Rightarrow> Inr (f # fs)))"

definition format_context :: "'s chunk list \<Rightarrow> exn + string" where
  "format_context cs =
     (if cs = [] then Inr []
      else (case formatted_chunks 0 cs of
              Inl e \<Rightarrow> Inl e
            | Inr fs \<Rightarrow> Inr (py_join [CHR 0x0A] fs)))"

subsection \<open>expand\_query\<close>

text \<open>
  Removing the numbering of a line that is not empty: when the first character is a
  digit and a dot is among the first three characters, the line becomes what follows its
  first dot, stripped.
\<close>

definition strip_numbering :: "string \<Rightarrow> string" where
  "strip_numbering clean_line =
     (case clean_line of
        [] \<Rightarrow> clean_line
      | c # _ \<Rightarrow>
          if isdigit c \<and> CHR ''.'' \<in> set (take 3 clean_line)
          then py_strip (after_first CHR ''.'' clean_line)
          else clean_line)"

text \<open>Removing one pair of quotes \<open>q\<close> when the line both starts and ends with \<open>q\<close>.\<close>

definition strip_quotes :: "char \<Rightarrow> string \<Rightarrow> string" where
  "strip_quotes q clean_line =
     (if startswith clean_line [q] \<and> endswith clean_line [q]
      then slice_inner clean_line else clean_line)"

text \<open>The body of the loop over the lines: \<open>None\<close> when nothing is appended.\<close>

definition parse_line :: "string \<Rightarrow> string option" where
  "parse_line line =
     (let clean_line = py_strip line
      in if clean_line \<noteq> []
         then Some (strip_quotes (CHR 0x27) (strip_quotes (CHR 0x22) (strip_numbering clean_line)))
         else None)"

definition parse_expanded :: "string list \<Rightarrow> string list" where
  "parse_expanded lines =
     fold (\<lambda>line expanded. case parse_line line of
                              None \<Rightarrow> expanded
                            | Some q \<Rightarrow> expanded @ [q])
          lines []"

text \<open>The \<open>try\<close> block of \<open>expand_query\<close>, then the function with its handler.\<close>

definition expand_query_try :: "'s services \<Rightarrow> string \<Rightarrow> int \<Rightarrow> exn + string list" where
  "expand_query_try S query num_expansions =
     (case expansion_reply S query num_expansions of
        Inl e \<Rightarrow> Inl e
      | Inr None \<Rightarrow> Inl AttributeError
      | Inr (Some content) \<Rightarrow>
          (let expanded_text = py_strip content
           in Inr (slice_to (parse_expanded (py_split expanded_text (CHR 0x0A)))
                            num_expansions)))"

definition expand_query :: "'s services \<Rightarrow> string \<Rightarrow> int \<Rightarrow> string list" where
  "expand_query S query num_expansions =
     (case expand_query_try S query num_expansions of
        Inl e \<Rightarrow> []
      | Inr expanded \<Rightarrow> expanded)"

subsection \<open>generate\_answer\<close>

text \<open>
  \<open>asyncio.gather\<close> of the search tasks: the list of all results, in the order of the
  tasks, when every task returns; when a task raises, the awaiting code receives an
  exception and no result of any task. Which exception it is when several tasks raise
  depends on the scheduling; the model takes the first in the order of the tasks, and the
  handler of \<open>generate_answer\<close> does not look at it.
\<close>

fun gather :: "(exn + 'a) list \<Rightarrow> exn + 'a list" where
  "gather [] = Inr []"
| "gather (r # rs) =
     (case r of
        Inl e \<Rightarrow> Inl e
      | Inr x \<Rightarrow> (case gather rs of Inl e \<Rightarrow> Inl e | Inr xs \<Rightarrow> Inr (x # xs)))"

definition search_tasks ::
  "'s services \<Rightarrow> string list \<Rightarrow> int \<Rightarrow> string \<Rightarrow> (exn + 's chunk list) list" where
  "search_tasks S queries top_k user_onace_code =
     map (\<lambda>(i, eq). search_all_documents S i eq top_k user_onace_code)
         (List.enumerate 0 queries)"

text \<open>
  The queries of the fan-out: the original query, then the expansions. \<open>expand_query\<close>
  is called with its default of 4 expansions.
\<close>

definition search_queries :: "'s services \<Rightarrow> string \<Rightarrow> string list" where
  "search_queries S query = [query] @ expand_query S query 4"

text \<open>The fan-out and the flattening of its results: \<open>all_chunks\<close>.\<close>

definition all_chunks ::
  "'s services \<Rightarrow> string list \<Rightarrow> int \<Rightarrow> string \<Rightarrow> exn + 's chunk list" where
  "all_chunks S queries top_k user_onace_code =
     (case gather (search_tasks S queries top_k user_onace_code) of
        Inl e \<Rightarrow> Inl e
      | Inr list_of_chunk_lists \<Rightarrow> Inr (concat list_of_chunk_lists))"

text \<open>
  The deduplication: the pool is sorted by score (\<open>list.sort\<close> is stable, as
  \<^const>\<open>sort_key\<close> is), then a dict from text to chunk, in insertion order, takes each
  chunk whose text is not a key yet.
\<close>

fun unique_chunks_dict ::
  "(string \<times> 's chunk) list \<Rightarrow> 's chunk list \<Rightarrow> (string \<times> 's chunk) list" where
  "unique_chunks_dict d [] = d"
| "unique_chunks_dict d (chunk # rest) =
     (if map_of d (text_key chunk) = None
      then unique_chunks_dict (d @ [(text_key chunk, chunk)]) rest
      else unique_chunks_dict d rest)"

definition unique_chunks :: "('s::{linorder, order_top}) chunk list \<Rightarrow> 's chunk list" where
  "unique_chunks pool = map snd (unique_chunks_dict [] (sort_key score_key pool))"

text \<open>The priority ranking: the two groups, each sorted, and the two slices.\<close>

definition top_unique_chunks ::
  "('s::{linorder, order_top}) chunk list \<Rightarrow> int \<Rightarrow> 's chunk list" where
  "top_unique_chunks unique top_k =
     (let vsme_chunks = sort_key score_key (filter chunk_is_vsme unique);
          other_chunks = sort_key score_key (filter (\<lambda>chunk. \<not> chunk_is_vsme chunk) unique);
          vsme_limit = max 1 (top_k div 2)
      in slice_to vsme_chunks vsme_limit @ slice_to other_chunks (top_k - vsme_limit))"

text \<open>What \<open>generate_answer\<close> appends to its fixed system prompt.\<close>

definition prompt_suffix :: "string option \<Rightarrow> string option \<Rightarrow> string" where
  "prompt_suffix meta_information conversation_history =
     (case meta_information of
        None \<Rightarrow> []
      | Some m \<Rightarrow>
          if m \<noteq> [] \<and> py_strip m \<noteq> []
          then [CHR 0x0A, CHR 0x0A] @ ''Additional context from the user:'' @ [CHR 0x0A] @ m
          else []) @
     (case conversation_history of
        None \<Rightarrow> []
      | Some h \<Rightarrow>
          if h \<noteq> []
          then [CHR 0x0A, CHR 0x0A] @ ''Previous conversation:'' @ [CHR 0x0A] @ h @
               [CHR 0x0A, CHR 0x0A] @
               ''Please consider the previous conversation when answering the current question.''
          else [])"

record 's answer_result =
  answer :: "string option"
  chunks :: "'s chunk list"
  expanded_queries :: "string list"
  sources :: "string list"
  relevant_links :: "string list"
  success :: bool

text \<open>The dict that the handler of \<open>generate_answer\<close> returns.\<close>

definition failure_result :: "'s answer_result" where
  "failure_result =
     \<lparr>answer = Some ''I apologize, but I encountered an error while processing your request.'',
      chunks = [],
      expanded_queries = [],
      sources = [],
      relevant_links = [],
      success = False\<rparr>"

text \<open>The \<open>try\<close> block of \<open>generate_answer\<close>, then the function with its handler.\<close>

definition generate_answer_try ::
  "('s::{linorder, order_top}) services \<Rightarrow> string \<Rightarrow> string option \<Rightarrow> int \<Rightarrow> string \<Rightarrow> real
     \<Rightarrow> string option \<Rightarrow> string \<Rightarrow> exn + 's answer_result" where
  "generate_answer_try S query conversation_history top_k model temperature
       meta_information user_onace_code =
     (case all_chunks S (search_queries S query) top_k user_onace_code of
        Inl e \<Rightarrow> Inl e
      | Inr pool \<Rightarrow>
          (let top = top_unique_chunks (unique_chunks pool) top_k
           in case format_context top of
                Inl e \<Rightarrow> Inl e
              | Inr ctx \<Rightarrow>
                  (case synthesis_reply S model temperature
                          (prompt_suffix meta_information conversation_history) ctx query of
                     Inl e \<Rightarrow> Inl e
                   | Inr content \<Rightarrow>
                       Inr \<lparr>answer = content,
                            chunks = top,
                            expanded_queries = expand_query S query 4,
                            sources = map source_name top,
                            relevant_links = get_relevant_links S query top user_onace_code,
                            success = True\<rparr>)))"

definition generate_answer ::
  "('s::{linorder, order_top}) services \<Rightarrow> string \<Rightarrow> string option \<Rightarrow> int \<Rightarrow> string \<Rightarrow> real
     \<Rightarrow> string option \<Rightarrow> string \<Rightarrow> 's answer_result" where
  "generate_answer S query conversation_history top_k model temperature
       meta_information user_onace_code =
     (case generate_answer_try S query conversation_history top_k model temperature
             meta_information user_onace_code of
        Inl e \<Rightarrow> failure_result
      | Inr result \<Rightarrow> result)"

section \<open>The ranking in the words of the specification\<close>

text \<open>
  The specification of the priority ranker names a quota and two sorted partitions; the
  ranking of the source is compared with them below.
\<close>

definition primaryQuota :: "int \<Rightarrow> int" where
  "primaryQuota topK = max 1 (topK div 2)"

definition primary :: "('s::{linorder, order_top}) chunk list \<Rightarrow> 's chunk list" where
  "primary deduped = sort_key score_key (filter chunk_is_vsme deduped)"

definition other :: "('s::{linorder, order_top}) chunk list \<Rightarrow> 's chunk list" where
  "other deduped = sort_key score_key (filter (\<lambda>c. \<not> chunk_is_vsme c) deduped)"

section \<open>Example data\<close>

text \<open>A chunk with every key present, and services that answer with fixed replies.\<close>

definition example_chunk :: "string \<Rightarrow> string \<Rightarrow> enat \<Rightarrow> bool \<Rightarrow> enat chunk" where
  "example_chunk name t s v =
     \<lparr>chunk_id = Some name, chunk_text = Some t, score = Some s,
      metadata = Some \<lparr>filename = Some (name @ ''.pdf''), is_vsme = Some v\<rparr>\<rparr>"

definition example_services ::
  "(exn + string option) \<Rightarrow> (nat \<Rightarrow> exn + enat chunk list) \<Rightarrow> (exn + string option)
     \<Rightarrow> (exn + string option) \<Rightarrow> enat services" where
  "example_services expansion search synthesis classification =
     \<lparr>expansion_reply = (\<lambda>query num_expansions. expansion),
      search_all_documents = (\<lambda>i eq top_k user_onace_code. search i),
      synthesis_reply = (\<lambda>model temperature suffix ctx query. synthesis),
      classification_reply = (\<lambda>prompt. classification)\<rparr>"

section \<open>Properties of the string functions\<close>

lemma ONACE_keys: "map fst ONACE_CATEGORIES = ONACE_CODES"
  by (simp add: ONACE_CATEGORIES_def ONACE_CODES_def)

lemma in_ONACE_CATEGORIES_iff: "in_ONACE_CATEGORIES c \<longleftrightarrow> c \<in> set ONACE_CODES"
proof -
  have "in_ONACE_CATEGORIES c \<longleftrightarrow> c \<in> fst ` set ONACE_CATEGORIES"
    unfolding in_ONACE_CATEGORIES_def by (simp add: map_of_eq_None_iff)
  also have "fst ` set ONACE_CATEGORIES = set (map fst ONACE_CATEGORIES)"
    by simp
  finally show ?thesis by (simp only: ONACE_keys)
qed

lemma py_strip_plain:
  "s \<noteq> [] \<Longrightarrow> \<not> isspace (hd s) \<Longrightarrow> \<not> isspace (last s) \<Longrightarrow> py_strip s = s"
proof -
  assume ne: "s \<noteq> []" and h: "\<not> isspace (hd s)" and l: "\<not> isspace (last s)"
  from ne h have a: "dropWhile isspace s = s"
    by (cases s) auto
  from ne l have "dropWhile isspace (rev s) = rev s"
    by (cases "rev s") (auto simp: last_rev [symmetric] hd_rev)
  with a show ?thesis
    by (simp add: py_strip_def py_lstrip_def py_rstrip_def)
qed

section \<open>Properties of the industry taxonomy\<close>

lemma fold_parse_step:
  "fold parse_step ps acc = acc \<union> {c \<in> py_strip ` set ps. c \<in> set ONACE_CODES}"
proof (induction ps arbitrary: acc)
  case Nil
  show ?case by simp
next
  case (Cons p ps)
  have nonempty: "c \<in> set ONACE_CODES \<Longrightarrow> c \<noteq> []" for c
    by (auto simp: ONACE_CODES_def)
  have "parse_step p acc = acc \<union> {c \<in> {py_strip p}. c \<in> set ONACE_CODES}"
    using nonempty by (auto simp: parse_step_def Let_def in_ONACE_CATEGORIES_iff)
  then show ?case
    using Cons.IH [of "parse_step p acc"] by auto
qed

lemma parse_onace_codes_valid:
  "parse_onace_codes s =
     (if s = [] \<or> s = ''nan'' then {''0''}
      else if {c \<in> py_strip ` set (py_split s CHR '',''). c \<in> set ONACE_CODES} = {}
           then {''0''}
           else {c \<in> py_strip ` set (py_split s CHR '',''). c \<in> set ONACE_CODES})"
proof -
  define V where "V = {c \<in> py_strip ` set (py_split s CHR '',''). c \<in> set ONACE_CODES}"
  have "fold parse_step (py_split s CHR '','') {} = V"
    by (simp add: fold_parse_step V_def)
  then have "parse_onace_codes s =
     (if s = [] \<or> s = ''nan'' then {''0''} else if V = {} then {''0''} else V)"
    by (simp add: parse_onace_codes_def Let_def)
  then show ?thesis by (simp only: V_def)
qed

lemma get_relevant_documents_fold:
  "fold (\<lambda>doc relevant_docs.
             if is_document_relevant (parse_onace_codes (doc_codes doc)) u
             then relevant_docs @ [doc] else relevant_docs) docs acc
   = acc @ filter (\<lambda>doc. is_document_relevant (parse_onace_codes (doc_codes doc)) u) docs"
  by (induction docs arbitrary: acc) auto

lemma get_relevant_documents_filter:
  "get_relevant_documents docs u =
     filter (\<lambda>doc. is_document_relevant (parse_onace_codes (doc_codes doc)) u) docs"
  by (simp add: get_relevant_documents_def get_relevant_documents_fold)

text \<open>
  C6. A document is relevant to a user code exactly when its code set contains \<open>0\<close> or the
  user code. So a document tagged \<open>{0}\<close> is relevant to every user code, and a document
  tagged \<open>{C}\<close> is relevant to user code \<open>C\<close> and to no other, in particular not to \<open>0\<close>:
  relevance is not symmetric.
\<close>

theorem is_document_relevant_iff:
  "(is_document_relevant document_codes user_code
      \<longleftrightarrow> ''0'' \<in> document_codes \<or> user_code \<in> document_codes)
   \<and> is_document_relevant {''0''} user_code
   \<and> (is_document_relevant {''C''} user_code \<longleftrightarrow> user_code = ''C'')
   \<and> is_document_relevant {''0''} ''C''
   \<and> \<not> is_document_relevant {''C''} ''0''"
  by (auto simp: is_document_relevant_def)

theorem is_document_relevant_iff_witness:
  "is_document_relevant {''A'', ''B''} ''B'' \<and> \<not> is_document_relevant {''C''} ''A''"
  using is_document_relevant_iff [of "{''A'', ''B''}" "''B''"]
        is_document_relevant_iff [of "{}" "''A''"]
  by simp

text \<open>
  C7. \<open>parse_onace_codes\<close> splits its argument at the commas, strips each piece and keeps the
  pieces that are codes of the catalog \<open>0, A, ..., U\<close>. For the empty string, for the literal
  \<open>nan\<close>, and whenever no piece is a code of the catalog (as for \<open>zzz\<close>), the result is
  exactly \<open>{0}\<close>.
\<close>

theorem parse_onace_codes_spec:
  "parse_onace_codes s =
     (if s = [] \<or> s = ''nan'' then {''0''}
      else if {c \<in> py_strip ` set (py_split s CHR '',''). c \<in> set ONACE_CODES} = {}
           then {''0''}
           else {c \<in> py_strip ` set (py_split s CHR '',''). c \<in> set ONACE_CODES})
   \<and> set ONACE_CODES = fst ` set ONACE_CATEGORIES
   \<and> parse_onace_codes [] = {''0''}
   \<and> parse_onace_codes ''nan'' = {''0''}
   \<and> parse_onace_codes ''zzz'' = {''0''}"
proof -
  have zzz: "py_split ''zzz'' CHR '','' = [''zzz'']" by simp
  have "py_strip ''zzz'' = ''zzz''"
    by (simp add: py_strip_plain isspace_def py_whitespace_def)
  then have "{c \<in> py_strip ` set (py_split ''zzz'' CHR '',''). c \<in> set ONACE_CODES} = {}"
    unfolding zzz by (simp add: ONACE_CODES_def)
  then have "parse_onace_codes ''zzz'' = {''0''}"
    by (simp add: parse_onace_codes_valid)
  moreover have "set ONACE_CODES = fst ` set ONACE_CATEGORIES"
    using ONACE_keys by (metis set_map)
  moreover have "parse_onace_codes [] = {''0''}" "parse_onace_codes ''nan'' = {''0''}"
    by (simp_all add: parse_onace_codes_def)
  ultimately show ?thesis
    using parse_onace_codes_valid [of s] by simp
qed

theorem parse_onace_codes_spec_witness:
  "parse_onace_codes ''A, b ,C,,C'' = {''A'', ''C''}"
proof -
  have "py_strip ` set (py_split ''A, b ,C,,C'' CHR '','') = {''A'', ''b'', ''C'', []}"
    by (simp add: py_strip_def py_lstrip_def py_rstrip_def isspace_def py_whitespace_def
        insert_commute)
  moreover have "{c \<in> {''A'', ''b'', ''C'', []}. c \<in> set ONACE_CODES} = {''A'', ''C''}"
    by (auto simp: ONACE_CODES_def)
  ultimately show ?thesis
    using parse_onace_codes_spec [of "''A, b ,C,,C''", THEN conjunct1] by simp
qed

text \<open>
  C9. Matching against the catalog is exact, hence case-sensitive. When no stripped piece
  of a document's raw code string is a code of the catalog (for instance the lower-case
  \<open>c\<close>), \<open>parse_onace_codes\<close> yields \<open>{0}\<close>, \<open>is_document_relevant\<close> holds for every user
  code, and \<open>get_relevant_documents\<close> keeps every document carrying that string, whatever
  the user code: the unparseable tag widens the relevance instead of dropping the document.
\<close>

theorem unparseable_codes_relevant_to_all:
  assumes "\<forall>t \<in> set (py_split s CHR '',''). py_strip t \<notin> set ONACE_CODES"
  shows "parse_onace_codes s = {''0''}
       \<and> is_document_relevant (parse_onace_codes s) user_code
       \<and> (\<forall>doc \<in> set docs. onace_codes doc = Some s \<longrightarrow>
             doc \<in> set (get_relevant_documents docs user_code))
       \<and> parse_onace_codes ''c'' = {''0''}
       \<and> parse_onace_codes ''C'' = {''C''}"
proof -
  have empty: "{c \<in> py_strip ` set (py_split s CHR '',''). c \<in> set ONACE_CODES} = {}"
    using assms by auto
  have p: "parse_onace_codes s = {''0''}"
    by (simp add: parse_onace_codes_def fold_parse_step empty)
  have r: "is_document_relevant (parse_onace_codes s) u" for u
    by (simp add: p is_document_relevant_def)
  have k: "doc \<in> set (get_relevant_documents docs user_code)"
    if "doc \<in> set docs" "onace_codes doc = Some s" for doc
    using that r by (simp add: get_relevant_documents_filter doc_codes_def)
  have s1: "py_strip ''c'' = ''c''" "py_strip ''C'' = ''C''"
    by (simp_all add: py_strip_plain isspace_def py_whitespace_def)
  have lower: "parse_onace_codes ''c'' = {''0''}"
    by (simp add: parse_onace_codes_valid s1 ONACE_CODES_def)
  have upper: "parse_onace_codes ''C'' = {''C''}"
    by (auto simp: parse_onace_codes_valid s1 ONACE_CODES_def)
  from p r k lower upper show ?thesis by blast
qed

theorem unparseable_codes_relevant_to_all_witness:
  "py_split ''c'' CHR '','' = [''c''] \<and> py_strip ''c'' \<notin> set ONACE_CODES
   \<and> parse_onace_codes ''c'' = {''0''}
   \<and> is_document_relevant (parse_onace_codes ''c'') ''A''
   \<and> \<lparr>onace_codes = Some ''c''\<rparr>
        \<in> set (get_relevant_documents
                 [\<lparr>onace_codes = Some ''C''\<rparr>, \<lparr>onace_codes = Some ''c''\<rparr>] ''A'')"
proof -
  have "py_strip ''c'' = ''c''"
    by (simp add: py_strip_plain isspace_def py_whitespace_def)
  then have h: "\<forall>t \<in> set (py_split ''c'' CHR '',''). py_strip t \<notin> set ONACE_CODES"
    by (simp add: ONACE_CODES_def)
  show ?thesis
    using h unparseable_codes_relevant_to_all
      [OF h, of "''A''" "[\<lparr>onace_codes = Some ''C''\<rparr>, \<lparr>onace_codes = Some ''c''\<rparr>]"]
    by (simp add: is_document_relevant_def)
qed
section \<open>Properties of the deduplication\<close>

lemma ucd_new:
  "map_of d (text_key x) = None \<Longrightarrow>
   unique_chunks_dict d (x # xs) = unique_chunks_dict (d @ [(text_key x, x)]) xs"
  by simp

lemma ucd_old:
  "map_of d (text_key x) \<noteq> None \<Longrightarrow> unique_chunks_dict d (x # xs) = unique_chunks_dict d xs"
  by auto

lemma ucd_keyed:
  "\<forall>p \<in> set d. fst p = text_key (snd p) \<Longrightarrow>
   \<forall>p \<in> set (unique_chunks_dict d xs). fst p = text_key (snd p)"
proof (induction xs arbitrary: d)
  case Nil
  then show ?case by simp
next
  case (Cons x xs)
  show ?case
  proof (cases "map_of d (text_key x) = None")
    case True
    have "\<forall>p \<in> set (d @ [(text_key x, x)]). fst p = text_key (snd p)"
      using Cons.prems by simp
    from Cons.IH [OF this] show ?thesis by (simp only: ucd_new [OF True])
  next
    case False
    from Cons.IH [OF Cons.prems] show ?thesis by (simp only: ucd_old [OF False])
  qed
qed

lemma keyed_map: "\<forall>p \<in> set d. fst p = text_key (snd p) \<Longrightarrow> map fst d = map text_key (map snd d)"
  by (induction d) auto

lemma ucd_keys:
  "set (map fst (unique_chunks_dict d xs)) = set (map fst d) \<union> text_key ` set xs"
proof (induction xs arbitrary: d)
  case Nil
  show ?case by simp
next
  case (Cons x xs)
  show ?case
  proof (cases "map_of d (text_key x) = None")
    case True
    then show ?thesis using Cons.IH [of "d @ [(text_key x, x)]"] by auto
  next
    case False
    then have "text_key x \<in> set (map fst d)"
      by (simp add: map_of_eq_None_iff)
    with False show ?thesis using Cons.IH [of d] by auto
  qed
qed

lemma ucd_distinct:
  "distinct (map fst d) \<Longrightarrow> distinct (map fst (unique_chunks_dict d xs))"
proof (induction xs arbitrary: d)
  case Nil
  then show ?case by simp
next
  case (Cons x xs)
  show ?case
  proof (cases "map_of d (text_key x) = None")
    case True
    then have "text_key x \<notin> set (map fst d)"
      by (simp add: map_of_eq_None_iff)
    with Cons.prems have "distinct (map fst (d @ [(text_key x, x)]))"
      by simp
    from Cons.IH [OF this] True show ?thesis by simp
  next
    case False
    from Cons.IH [OF Cons.prems] show ?thesis by (simp only: ucd_old [OF False])
  qed
qed

lemma ucd_members:
  "c \<in> snd ` set (unique_chunks_dict d xs) \<Longrightarrow>
   c \<in> snd ` set d \<or> (c \<in> set xs \<and> text_key c \<notin> fst ` set d)"
proof (induction xs arbitrary: d)
  case Nil
  then show ?case by simp
next
  case (Cons x xs)
  show ?case
  proof (cases "map_of d (text_key x) = None")
    case True
    then have new: "text_key x \<notin> fst ` set d"
      by (simp add: map_of_eq_None_iff)
    from Cons.prems True have "c \<in> snd ` set (unique_chunks_dict (d @ [(text_key x, x)]) xs)"
      by simp
    from Cons.IH [OF this] new show ?thesis by auto
  next
    case False
    from Cons.prems have "c \<in> snd ` set (unique_chunks_dict d xs)"
      by (simp only: ucd_old [OF False])
    from Cons.IH [OF this] show ?thesis by auto
  qed
qed

lemma find_first_distinct:
  "distinct (map g ys) \<Longrightarrow> u \<in> set ys \<Longrightarrow> List.find (\<lambda>c. g c = g u) ys = Some u"
  by (induction ys) (auto simp: image_iff)

lemma find_append_cases:
  "List.find P (xs @ ys) = (case List.find P xs of None \<Rightarrow> List.find P ys | Some x \<Rightarrow> Some x)"
  by (induction xs) auto

lemma ucd_first:
  assumes "\<forall>p \<in> set d. fst p = text_key (snd p)" and "distinct (map fst d)"
      and "u \<in> snd ` set (unique_chunks_dict d xs)"
  shows "List.find (\<lambda>c. text_key c = text_key u) (map snd d @ xs) = Some u"
  using assms
proof (induction xs arbitrary: d)
  case Nil
  then have "distinct (map text_key (map snd d))" by (simp only: keyed_map [symmetric])
  moreover from Nil have "u \<in> set (map snd d)" by simp
  ultimately show ?case
    using find_first_distinct [of text_key "map snd d" u] by simp
next
  case (Cons x xs)
  show ?case
  proof (cases "map_of d (text_key x) = None")
    case True
    then have new: "text_key x \<notin> set (map fst d)"
      by (simp add: map_of_eq_None_iff)
    let ?d = "d @ [(text_key x, x)]"
    have "\<forall>p \<in> set ?d. fst p = text_key (snd p)" using Cons.prems(1) by simp
    moreover have "distinct (map fst ?d)" using Cons.prems(2) new by simp
    moreover have "u \<in> snd ` set (unique_chunks_dict ?d xs)"
      using Cons.prems(3) True by simp
    ultimately have "List.find (\<lambda>c. text_key c = text_key u) (map snd ?d @ xs) = Some u"
      by (rule Cons.IH)
    then show ?thesis by simp
  next
    case False
    then have old: "text_key x \<in> set (map fst d)"
      by (simp add: map_of_eq_None_iff)
    from Cons.prems(3) have "u \<in> snd ` set (unique_chunks_dict d xs)"
      by (simp only: ucd_old [OF False])
    with Cons.prems have IH: "List.find (\<lambda>c. text_key c = text_key u) (map snd d @ xs) = Some u"
      by (intro Cons.IH)
    show ?thesis
    proof (cases "List.find (\<lambda>c. text_key c = text_key u) (map snd d)")
      case (Some v)
      with IH show ?thesis by (simp add: find_append_cases)
    next
      case None
      then have "text_key u \<notin> set (map text_key (map snd d))"
        by (auto simp: find_None_iff)
      moreover from old have "text_key x \<in> set (map text_key (map snd d))"
        by (simp only: keyed_map [OF Cons.prems(1)])
      ultimately have "text_key x \<noteq> text_key u" by metis
      with None IH show ?thesis by (simp add: find_append_cases)
    qed
  qed
qed

lemma sorted_drop_middle:
  "sorted (map f (xs @ y # ys)) \<Longrightarrow> sorted (map f (xs @ ys))"
  by (auto simp: sorted_append)

lemma ucd_sorted:
  "sorted (map f (map snd d @ xs)) \<Longrightarrow> sorted (map f (map snd (unique_chunks_dict d xs)))"
proof (induction xs arbitrary: d)
  case Nil
  then show ?case by simp
next
  case (Cons x xs)
  show ?case
  proof (cases "map_of d (text_key x) = None")
    case True
    have "sorted (map f (map snd (d @ [(text_key x, x)]) @ xs))"
      using Cons.prems by simp
    from Cons.IH [OF this] True show ?thesis by simp
  next
    case False
    have "sorted (map f (map snd d @ xs))"
      using Cons.prems by (rule sorted_drop_middle)
    from Cons.IH [OF this] show ?thesis by (simp only: ucd_old [OF False])
  qed
qed

lemma ucd_fixpoint:
  "distinct (map text_key xs) \<Longrightarrow> set (map fst d) \<inter> text_key ` set xs = {} \<Longrightarrow>
   unique_chunks_dict d xs = d @ map (\<lambda>c. (text_key c, c)) xs"
proof (induction xs arbitrary: d)
  case Nil
  show ?case by simp
next
  case (Cons x xs)
  from Cons.prems(2) have new: "map_of d (text_key x) = None"
    by (auto simp: map_of_eq_None_iff)
  have "distinct (map text_key xs)" using Cons.prems(1) by simp
  moreover have "set (map fst (d @ [(text_key x, x)])) \<inter> text_key ` set xs = {}"
    using Cons.prems by auto
  ultimately have "unique_chunks_dict (d @ [(text_key x, x)]) xs
      = (d @ [(text_key x, x)]) @ map (\<lambda>c. (text_key c, c)) xs"
    by (rule Cons.IH)
  with new show ?case by simp
qed

lemma unique_chunks_sorted: "sorted (map score_key (unique_chunks X))"
  unfolding unique_chunks_def
  using ucd_sorted [of score_key "[]" "sort_key score_key X"] by simp

lemma unique_chunks_distinct: "distinct (map text_key (unique_chunks X))"
  unfolding unique_chunks_def
  using ucd_distinct [of "[]" "sort_key score_key X"]
        keyed_map [OF ucd_keyed [of "[]" "sort_key score_key X"]] by simp

lemma unique_chunks_texts: "text_key ` set (unique_chunks X) = text_key ` set X"
proof -
  have "set (map text_key (unique_chunks X))
      = set (map fst (unique_chunks_dict [] (sort_key score_key X)))"
    unfolding unique_chunks_def
    using keyed_map [OF ucd_keyed [of "[]" "sort_key score_key X"]] by simp
  also have "\<dots> = text_key ` set X"
    by (simp only: ucd_keys) simp
  finally show ?thesis by simp
qed

lemma unique_chunks_subset: "set (unique_chunks X) \<subseteq> set X"
proof
  fix c assume "c \<in> set (unique_chunks X)"
  then have "c \<in> snd ` set (unique_chunks_dict [] (sort_key score_key X))"
    by (simp add: unique_chunks_def)
  from ucd_members [OF this] show "c \<in> set X" by simp
qed

lemma unique_chunks_first:
  "u \<in> set (unique_chunks X) \<Longrightarrow>
   List.find (\<lambda>c. text_key c = text_key u) (sort_key score_key X) = Some u"
proof -
  assume "u \<in> set (unique_chunks X)"
  then have "u \<in> snd ` set (unique_chunks_dict [] (sort_key score_key X))"
    by (simp add: unique_chunks_def)
  then show ?thesis
    using ucd_first [of "[]" u "sort_key score_key X"] by simp
qed

lemma first_in_sorted_least:
  assumes "List.find P S = Some u" and "sorted (map f S)" and "c \<in> set S" and "P c"
  shows "f u \<le> f c"
proof -
  from assms(1) obtain i where i: "i < length S" "u = S ! i" "\<forall>j<i. \<not> P (S ! j)"
    by (auto simp: find_Some_iff)
  from assms(3) obtain j where j: "j < length S" "c = S ! j"
    by (auto simp: in_set_conv_nth)
  with assms(4) i(3) have "i \<le> j" by (meson not_le)
  with assms(2) i j have "map f S ! i \<le> map f S ! j"
    by (intro sorted_nth_mono) auto
  with i j show ?thesis by simp
qed

lemma unique_chunks_least:
  assumes "u \<in> set (unique_chunks X)" and "c \<in> set X" and "text_key c = text_key u"
  shows "score_key u \<le> score_key c"
  using unique_chunks_first [OF assms(1)] assms(2,3)
  by (intro first_in_sorted_least [where S = "sort_key score_key X"
        and P = "\<lambda>c. text_key c = text_key u"]) auto

lemma unique_chunks_idem: "unique_chunks (unique_chunks X) = unique_chunks X"
proof -
  let ?U = "unique_chunks X"
  have "sort_key score_key ?U = ?U"
    by (rule sort_key_id_if_sorted) (rule unique_chunks_sorted)
  moreover have "unique_chunks_dict [] ?U = [] @ map (\<lambda>c. (text_key c, c)) ?U"
    by (rule ucd_fixpoint) (simp_all add: unique_chunks_distinct)
  ultimately show ?thesis
    by (simp add: unique_chunks_def [of ?U] comp_def)
qed

lemma unique_chunks_loser:
  assumes "a \<in> set X" "b \<in> set X" "text_key a = text_key b" "score_key a < score_key b"
  shows "b \<notin> set (unique_chunks X)"
proof
  assume "b \<in> set (unique_chunks X)"
  from unique_chunks_least [OF this assms(1,3)] assms(4) show False by simp
qed

lemma unique_chunks_pair:
  assumes "text_key a = text_key b" and "score_key a < score_key b"
  shows "unique_chunks [a, b] = [a]" and "unique_chunks [b, a] = [a]"
proof -
  from assms(2) have "sort_key score_key [a, b] = [a, b]" "sort_key score_key [b, a] = [a, b]"
    by auto
  with assms(1) show "unique_chunks [a, b] = [a]" "unique_chunks [b, a] = [a]"
    by (simp_all add: unique_chunks_def)
qed

text \<open>
  C3. The deduplication sorts the pool by ascending score and keeps, for each text, the
  first chunk with that text in the sorted order: the survivors are chunks of the pool,
  have pairwise distinct texts, cover every text of the pool, and each is the first chunk
  of its text in the sorted pool. So of two chunks of the pool with the same text and
  different scores, the one with the higher score does not survive and a chunk of that
  text with at most the lower score does; a pool of just these two chunks is reduced to
  the one with the lower score. Deduplicating twice is the same as deduplicating once.
\<close>

theorem unique_chunks_keeps_lowest_score:
  fixes X :: "('s::{linorder, order_top}) chunk list"
  shows
  "sorted (map score_key (unique_chunks X))
   \<and> set (unique_chunks X) \<subseteq> set X
   \<and> distinct (map text_key (unique_chunks X))
   \<and> text_key ` set (unique_chunks X) = text_key ` set X
   \<and> (\<forall>u \<in> set (unique_chunks X).
         List.find (\<lambda>c. text_key c = text_key u) (sort_key score_key X) = Some u)
   \<and> (\<forall>a b. a \<in> set X \<and> b \<in> set X \<and> text_key a = text_key b \<and> score_key a < score_key b
         \<longrightarrow> b \<notin> set (unique_chunks X)
             \<and> (\<exists>u \<in> set (unique_chunks X). text_key u = text_key a \<and> score_key u \<le> score_key a))
   \<and> (\<forall>a b :: 's chunk. text_key a = text_key b \<and> score_key a < score_key b
         \<longrightarrow> unique_chunks [a, b] = [a] \<and> unique_chunks [b, a] = [a])
   \<and> unique_chunks (unique_chunks X) = unique_chunks X"
proof -
  have survivor: "\<exists>u \<in> set (unique_chunks X). text_key u = text_key a \<and> score_key u \<le> score_key a"
    if "a \<in> set X" for a
  proof -
    from that have "text_key a \<in> text_key ` set (unique_chunks X)"
      by (simp add: unique_chunks_texts)
    then obtain u where u: "u \<in> set (unique_chunks X)" "text_key u = text_key a"
      by auto
    with that unique_chunks_least [of u X a] show ?thesis by auto
  qed
  have first: "\<forall>u \<in> set (unique_chunks X).
         List.find (\<lambda>c. text_key c = text_key u) (sort_key score_key X) = Some u"
    using unique_chunks_first [of _ X] by blast
  have two: "\<forall>a b. a \<in> set X \<and> b \<in> set X \<and> text_key a = text_key b \<and> score_key a < score_key b
         \<longrightarrow> b \<notin> set (unique_chunks X)
             \<and> (\<exists>u \<in> set (unique_chunks X). text_key u = text_key a \<and> score_key u \<le> score_key a)"
    using unique_chunks_loser [of _ X] survivor by blast
  have pair: "\<forall>a b::'s chunk. text_key a = text_key b \<and> score_key a < score_key b
         \<longrightarrow> unique_chunks [a, b] = [a] \<and> unique_chunks [b, a] = [a]"
    using unique_chunks_pair by blast
  show ?thesis
    by (intro conjI) (fact unique_chunks_sorted unique_chunks_subset unique_chunks_distinct
        unique_chunks_texts first two pair unique_chunks_idem)+
qed

theorem unique_chunks_keeps_lowest_score_witness:
  "text_key (example_chunk ''a'' ''same text'' 1 False)
     = text_key (example_chunk ''b'' ''same text'' 2 False)
   \<and> score_key (example_chunk ''a'' ''same text'' 1 False)
     < score_key (example_chunk ''b'' ''same text'' 2 False)
   \<and> unique_chunks [example_chunk ''b'' ''same text'' 2 False,
                     example_chunk ''a'' ''same text'' 1 False]
     = [example_chunk ''a'' ''same text'' 1 False]
   \<and> unique_chunks (unique_chunks [example_chunk ''b'' ''same text'' 2 False,
                                    example_chunk ''a'' ''same text'' 1 False])
     = unique_chunks [example_chunk ''b'' ''same text'' 2 False,
                      example_chunk ''a'' ''same text'' 1 False]"
proof -
  have h: "text_key (example_chunk ''a'' ''same text'' 1 False)
             = text_key (example_chunk ''b'' ''same text'' 2 False)
           \<and> score_key (example_chunk ''a'' ''same text'' 1 False)
             < score_key (example_chunk ''b'' ''same text'' 2 False)"
    by (simp add: example_chunk_def text_key_def score_key_def)
  note T = unique_chunks_keeps_lowest_score
      [of "[example_chunk ''b'' ''same text'' 2 False, example_chunk ''a'' ''same text'' 1 False]"]
  note pair = T [THEN conjunct2, THEN conjunct2, THEN conjunct2, THEN conjunct2,
      THEN conjunct2, THEN conjunct2, THEN conjunct1, rule_format, OF h]
  note idem = T [THEN conjunct2, THEN conjunct2, THEN conjunct2, THEN conjunct2,
      THEN conjunct2, THEN conjunct2, THEN conjunct2]
  from h pair idem show ?thesis by (intro conjI) (simp_all only: simp_thms)
qed

section \<open>Properties of the priority ranking\<close>

lemma slice_to_nonneg: "0 \<le> n \<Longrightarrow> slice_to xs n = take (nat n) xs"
  by (simp add: slice_to_def)

lemma length_slice_to: "length (slice_to xs n) \<le> length xs"
  by (simp add: slice_to_def)

lemma set_slice_to: "set (slice_to xs n) \<subseteq> set xs"
  by (auto simp: slice_to_def dest: in_set_takeD)

lemma top_unique_chunks_spec:
  "top_unique_chunks cs top_k =
     slice_to (primary cs) (primaryQuota top_k) @ slice_to (other cs) (top_k - primaryQuota top_k)"
  by (simp add: top_unique_chunks_def primary_def other_def primaryQuota_def Let_def)

lemma primaryQuota_bounds: "1 \<le> top_k \<Longrightarrow> 1 \<le> primaryQuota top_k \<and> primaryQuota top_k \<le> top_k"
  by (auto simp: primaryQuota_def)

text \<open>
  C2. For \<open>topK \<ge> 1\<close> the ranking of any (deduplicated) list is the first
  \<open>max 1 (topK div 2)\<close> chunks of \<open>primary\<close> followed by the first
  \<open>topK - max 1 (topK div 2)\<close> chunks of \<open>other\<close>, where \<open>primary\<close> holds the chunks
  marked \<open>is_vsme\<close> and \<open>other\<close> the rest, each sorted by ascending score. Its length is
  at most \<open>topK\<close>. When \<open>primary\<close> has fewer chunks than the quota, all of them are in
  the output together with no more than \<open>topK\<close> minus the quota chunks of \<open>other\<close>: the
  output is shorter by the deficit and nothing is filled in from \<open>other\<close>.
\<close>

theorem top_unique_chunks_quota:
  assumes "1 \<le> top_k"
  shows "top_unique_chunks cs top_k =
           take (nat (primaryQuota top_k)) (primary cs) @
           take (nat (top_k - primaryQuota top_k)) (other cs)
       \<and> primaryQuota top_k = max 1 (top_k div 2)
       \<and> sorted (map score_key (primary cs)) \<and> sorted (map score_key (other cs))
       \<and> set (primary cs) = {c \<in> set cs. chunk_is_vsme c}
       \<and> set (other cs) = {c \<in> set cs. \<not> chunk_is_vsme c}
       \<and> length (primary cs) + length (other cs) = length cs
       \<and> int (length (top_unique_chunks cs top_k)) \<le> top_k
       \<and> length (top_unique_chunks cs top_k) =
           min (nat (primaryQuota top_k)) (length (primary cs)) +
           min (nat (top_k - primaryQuota top_k)) (length (other cs))
       \<and> (int (length (primary cs)) < primaryQuota top_k \<longrightarrow>
            length (top_unique_chunks cs top_k) =
              length (primary cs) + min (nat (top_k - primaryQuota top_k)) (length (other cs))
            \<and> length (filter (\<lambda>c. \<not> chunk_is_vsme c) (top_unique_chunks cs top_k))
                \<le> nat (top_k - primaryQuota top_k))"
proof -
  from assms have q: "1 \<le> primaryQuota top_k" "primaryQuota top_k \<le> top_k"
    using primaryQuota_bounds by auto
  have eq: "top_unique_chunks cs top_k =
           take (nat (primaryQuota top_k)) (primary cs) @
           take (nat (top_k - primaryQuota top_k)) (other cs)"
    using q by (simp add: top_unique_chunks_spec slice_to_nonneg)
  have len: "length (top_unique_chunks cs top_k) =
           min (nat (primaryQuota top_k)) (length (primary cs)) +
           min (nat (top_k - primaryQuota top_k)) (length (other cs))"
    by (simp add: eq min.commute)
  have bound: "int (length (top_unique_chunks cs top_k)) \<le> top_k"
    using q unfolding len by linarith
  have sets: "set (primary cs) = {c \<in> set cs. chunk_is_vsme c}"
             "set (other cs) = {c \<in> set cs. \<not> chunk_is_vsme c}"
    by (auto simp: primary_def other_def)
  have total: "length (primary cs) + length (other cs) = length cs"
    by (simp add: primary_def other_def sum_length_filter_compl)
  have srt: "sorted (map score_key (primary cs))" "sorted (map score_key (other cs))"
    by (simp_all add: primary_def other_def)
  have prim_all: "filter (\<lambda>c. \<not> chunk_is_vsme c) (take n (primary cs)) = []" for n
    using sets(1) by (auto simp: filter_empty_conv dest: in_set_takeD)
  have nofill: "length (filter (\<lambda>c. \<not> chunk_is_vsme c) (top_unique_chunks cs top_k))
                \<le> nat (top_k - primaryQuota top_k)"
    unfolding eq filter_append prim_all
    using length_filter_le [of "\<lambda>c. \<not> chunk_is_vsme c" "take (nat (top_k - primaryQuota top_k)) (other cs)"]
    by simp
  have short: "length (top_unique_chunks cs top_k) =
              length (primary cs) + min (nat (top_k - primaryQuota top_k)) (length (other cs))"
    if "int (length (primary cs)) < primaryQuota top_k"
    using that unfolding len by simp
  have pq: "primaryQuota top_k = max 1 (top_k div 2)"
    by (simp add: primaryQuota_def)
  have deficit: "int (length (primary cs)) < primaryQuota top_k \<longrightarrow>
            length (top_unique_chunks cs top_k) =
              length (primary cs) + min (nat (top_k - primaryQuota top_k)) (length (other cs))
            \<and> length (filter (\<lambda>c. \<not> chunk_is_vsme c) (top_unique_chunks cs top_k))
                \<le> nat (top_k - primaryQuota top_k)"
    using short nofill by (intro impI conjI)
  show ?thesis
    by (intro conjI) (fact eq pq srt sets total bound len deficit)+
qed

theorem top_unique_chunks_quota_witness:
  "(1::int) \<le> 4
   \<and> primaryQuota 4 = 2
   \<and> int (length (primary [example_chunk ''o3'' ''w'' 5 False, example_chunk ''p1'' ''x'' 4 True,
                               example_chunk ''o1'' ''y'' 1 False, example_chunk ''o2'' ''z'' 2 False]))
       < primaryQuota 4
   \<and> top_unique_chunks [example_chunk ''o3'' ''w'' 5 False, example_chunk ''p1'' ''x'' 4 True,
                          example_chunk ''o1'' ''y'' 1 False, example_chunk ''o2'' ''z'' 2 False] 4
       = [example_chunk ''p1'' ''x'' 4 True, example_chunk ''o1'' ''y'' 1 False,
          example_chunk ''o2'' ''z'' 2 False]
   \<and> length (top_unique_chunks [example_chunk ''o3'' ''w'' 5 False, example_chunk ''p1'' ''x'' 4 True,
                          example_chunk ''o1'' ''y'' 1 False, example_chunk ''o2'' ''z'' 2 False] 4)
       = 3"
proof -
  let ?cs = "[example_chunk ''o3'' ''w'' 5 False, example_chunk ''p1'' ''x'' 4 True,
              example_chunk ''o1'' ''y'' 1 False, example_chunk ''o2'' ''z'' 2 False]"
  have h: "(1::int) \<le> 4" by simp
  have q: "primaryQuota 4 = 2" by (simp add: primaryQuota_def)
  have p: "primary ?cs = [example_chunk ''p1'' ''x'' 4 True]"
    by (simp add: primary_def example_chunk_def chunk_is_vsme_def)
  have o: "other ?cs = [example_chunk ''o1'' ''y'' 1 False, example_chunk ''o2'' ''z'' 2 False,
                        example_chunk ''o3'' ''w'' 5 False]"
    by (simp add: other_def example_chunk_def chunk_is_vsme_def score_key_def)
  note T = top_unique_chunks_quota [OF h, of ?cs]
  from T [THEN conjunct1] have e: "top_unique_chunks ?cs 4
       = [example_chunk ''p1'' ''x'' 4 True, example_chunk ''o1'' ''y'' 1 False,
          example_chunk ''o2'' ''z'' 2 False]"
    by (simp add: p o q)
  from h q p e show ?thesis by simp
qed

section \<open>Properties of the fan-out and of the result\<close>

lemma gather_all_Inr: "\<forall>r \<in> set rs. \<not> isl r \<Longrightarrow> gather rs = Inr (map projr rs)"
  by (induction rs) (auto split: sum.splits)

lemma gather_some_Inl: "r \<in> set rs \<Longrightarrow> isl r \<Longrightarrow> \<exists>e. gather rs = Inl e"
  by (induction rs) (auto split: sum.splits)

lemma gather_Inr_D: "gather rs = Inr xs \<Longrightarrow> rs = map Inr xs"
  by (induction rs arbitrary: xs) (auto split: sum.splits)

lemma search_tasks_nth:
  "search_tasks S qs k uc = map (\<lambda>i. search_all_documents S i (qs ! i) k uc) [0..<length qs]"
  by (rule nth_equalityI) (simp_all add: search_tasks_def nth_enumerate_eq)

lemma all_chunks_aborts:
  assumes "i < length qs" and "search_all_documents S i (qs ! i) k uc = Inl e"
  shows "\<exists>e'. all_chunks S qs k uc = Inl e'"
proof -
  have "search_all_documents S i (qs ! i) k uc \<in> set (search_tasks S qs k uc)"
    using assms(1) by (auto simp: search_tasks_nth)
  moreover have "isl (search_all_documents S i (qs ! i) k uc)"
    using assms(2) by simp
  ultimately obtain e' where "gather (search_tasks S qs k uc) = Inl e'"
    using gather_some_Inl by blast
  then show ?thesis by (simp add: all_chunks_def)
qed

lemma all_chunks_succeeds:
  assumes "\<forall>i < length qs. \<not> isl (search_all_documents S i (qs ! i) k uc)"
  shows "all_chunks S qs k uc =
           Inr (concat (map (\<lambda>i. projr (search_all_documents S i (qs ! i) k uc)) [0..<length qs]))"
proof -
  have "\<forall>r \<in> set (search_tasks S qs k uc). \<not> isl r"
    using assms by (auto simp: search_tasks_nth)
  then have "gather (search_tasks S qs k uc) = Inr (map projr (search_tasks S qs k uc))"
    by (rule gather_all_Inr)
  then show ?thesis
    by (simp add: all_chunks_def search_tasks_nth comp_def)
qed

lemma all_chunks_members:
  assumes "all_chunks S qs k uc = Inr pool" and "c \<in> set pool"
  shows "\<exists>i < length qs. \<exists>cs. search_all_documents S i (qs ! i) k uc = Inr cs \<and> c \<in> set cs"
proof -
  from assms(1) obtain css where g: "gather (search_tasks S qs k uc) = Inr css"
    and pool: "pool = concat css"
    by (auto simp: all_chunks_def split: sum.splits)
  from gather_Inr_D [OF g] have tasks: "search_tasks S qs k uc = map Inr css" .
  then have len: "length css = length qs"
    by (metis length_map search_tasks_nth length_upt diff_zero)
  from assms(2) pool obtain cs where cs: "cs \<in> set css" "c \<in> set cs" by auto
  then obtain i where i: "i < length css" "css ! i = cs"
    by (auto simp: in_set_conv_nth)
  with len have "search_tasks S qs k uc ! i = search_all_documents S i (qs ! i) k uc"
    by (simp add: search_tasks_nth)
  with tasks i have "search_all_documents S i (qs ! i) k uc = Inr cs" by simp
  with i len cs show ?thesis by auto
qed

lemma top_unique_chunks_subset: "set (top_unique_chunks cs k) \<subseteq> set cs"
proof -
  have "set (slice_to xs n) \<subseteq> set xs" for xs :: "'a chunk list" and n
    by (rule set_slice_to)
  from this [of "primary cs"] this [of "other cs"] show ?thesis
    by (auto simp: top_unique_chunks_spec primary_def other_def)
qed

lemma selected_subset: "set (top_unique_chunks (unique_chunks pool) k) \<subseteq> set pool"
  using top_unique_chunks_subset unique_chunks_subset by blast

lemma generate_answer_cases:
  "generate_answer S q h k m t mi uc = failure_result
   \<or> (\<exists>pool ctx content.
         all_chunks S (search_queries S q) k uc = Inr pool
       \<and> format_context (top_unique_chunks (unique_chunks pool) k) = Inr ctx
       \<and> synthesis_reply S m t (prompt_suffix mi h) ctx q = Inr content
       \<and> generate_answer S q h k m t mi uc =
           \<lparr>answer = content,
            chunks = top_unique_chunks (unique_chunks pool) k,
            expanded_queries = expand_query S q 4,
            sources = map source_name (top_unique_chunks (unique_chunks pool) k),
            relevant_links = get_relevant_links S q (top_unique_chunks (unique_chunks pool) k) uc,
            success = True\<rparr>)"
  by (simp add: generate_answer_def generate_answer_try_def Let_def split: sum.splits)

text \<open>
  C10. Deduplication and ranking only select and reorder: every chunk they return is an
  element of the pool. So every chunk in the \<open>chunks\<close> of the result of
  \<open>generate_answer\<close> is, unchanged in every field, a chunk that one of the search calls of
  the request returned, and \<open>sources\<close> lists the file names of exactly these chunks, in
  the same order.
\<close>

theorem chunks_are_retrieved_unmodified:
  "set (top_unique_chunks (unique_chunks pool) top_k) \<subseteq> set pool
   \<and> (\<forall>c \<in> set (chunks (generate_answer S q h top_k m t mi uc)).
         \<exists>i < length (search_queries S q). \<exists>cs.
           search_all_documents S i (search_queries S q ! i) top_k uc = Inr cs \<and> c \<in> set cs)
   \<and> sources (generate_answer S q h top_k m t mi uc)
       = map source_name (chunks (generate_answer S q h top_k m t mi uc))"
proof -
  consider (fail) "generate_answer S q h top_k m t mi uc = failure_result"
    | (ok) pool' a l where "all_chunks S (search_queries S q) top_k uc = Inr pool'"
        "generate_answer S q h top_k m t mi uc =
           \<lparr>answer = a, chunks = top_unique_chunks (unique_chunks pool') top_k,
            expanded_queries = expand_query S q 4,
            sources = map source_name (top_unique_chunks (unique_chunks pool') top_k),
            relevant_links = l, success = True\<rparr>"
    using generate_answer_cases [of S q h top_k m t mi uc] by blast
  then have "(\<forall>c \<in> set (chunks (generate_answer S q h top_k m t mi uc)).
         \<exists>i < length (search_queries S q). \<exists>cs.
           search_all_documents S i (search_queries S q ! i) top_k uc = Inr cs \<and> c \<in> set cs)
   \<and> sources (generate_answer S q h top_k m t mi uc)
       = map source_name (chunks (generate_answer S q h top_k m t mi uc))"
  proof cases
    case fail
    then show ?thesis by (simp add: failure_result_def)
  next
    case ok
    have "\<exists>i < length (search_queries S q). \<exists>cs.
           search_all_documents S i (search_queries S q ! i) top_k uc = Inr cs \<and> c \<in> set cs"
      if "c \<in> set (top_unique_chunks (unique_chunks pool') top_k)" for c
    proof -
      from that selected_subset have "c \<in> set pool'" by blast
      with ok(1) show ?thesis by (rule all_chunks_members)
    qed
    then show ?thesis by (simp add: ok(2))
  qed
  with selected_subset [of pool top_k] show ?thesis by (intro conjI) simp_all
qed

theorem chunks_are_retrieved_unmodified_witness:
  "set (top_unique_chunks (unique_chunks
          [example_chunk ''b'' ''same text'' 2 False, example_chunk ''a'' ''same text'' 1 False]) 3)
     \<subseteq> {example_chunk ''b'' ''same text'' 2 False, example_chunk ''a'' ''same text'' 1 False}
   \<and> sources (generate_answer
          (example_services (Inl (CallFailure ''down''))
             (\<lambda>i. Inr [example_chunk ''b'' ''same text'' 2 False,
                        example_chunk ''a'' ''same text'' 1 False])
             (Inr (Some ''text of the answer'')) (Inr (Some ''none'')))
          ''question'' None 3 ''model'' 0 None ''0'')
     = map source_name (chunks (generate_answer
          (example_services (Inl (CallFailure ''down''))
             (\<lambda>i. Inr [example_chunk ''b'' ''same text'' 2 False,
                        example_chunk ''a'' ''same text'' 1 False])
             (Inr (Some ''text of the answer'')) (Inr (Some ''none'')))
          ''question'' None 3 ''model'' 0 None ''0''))"
  using chunks_are_retrieved_unmodified
    [of "[example_chunk ''b'' ''same text'' 2 False, example_chunk ''a'' ''same text'' 1 False]" 3
        "example_services (Inl (CallFailure ''down''))
             (\<lambda>i. Inr [example_chunk ''b'' ''same text'' 2 False,
                        example_chunk ''a'' ''same text'' 1 False])
             (Inr (Some ''text of the answer'')) (Inr (Some ''none''))"
        "''question''" None "''model''" 0 None "''0''"]
  by simp

section \<open>Failures in generate\_answer\<close>

lemma generate_answer_try_Inl:
  "generate_answer_try S q h k m t mi uc = Inl e \<Longrightarrow>
   generate_answer S q h k m t mi uc = failure_result"
  by (simp add: generate_answer_def)

lemma all_chunks_Inl_fails:
  "all_chunks S (search_queries S q) k uc = Inl e \<Longrightarrow>
   generate_answer S q h k m t mi uc = failure_result"
  by (simp add: generate_answer_def generate_answer_try_def)

lemma synthesis_Inl_fails:
  assumes "all_chunks S (search_queries S q) k uc = Inr pool"
      and "format_context (top_unique_chunks (unique_chunks pool) k) = Inr ctx"
      and "synthesis_reply S m t (prompt_suffix mi h) ctx q = Inl e"
  shows "generate_answer S q h k m t mi uc = failure_result"
  using assms by (simp add: generate_answer_def generate_answer_try_def)

lemma synthesis_always_Inl_fails:
  assumes "\<forall>ctx. isl (synthesis_reply S m t (prompt_suffix mi h) ctx q)"
  shows "generate_answer S q h k m t mi uc = failure_result"
proof -
  have "generate_answer S q h k m t mi uc = failure_result
        \<or> (\<exists>ctx content. synthesis_reply S m t (prompt_suffix mi h) ctx q = Inr content)"
    using generate_answer_cases [of S q h k m t mi uc] by blast
  moreover have "\<not> (\<exists>ctx content. synthesis_reply S m t (prompt_suffix mi h) ctx q = Inr content)"
    using assms by (metis sum.disc(2))
  ultimately show ?thesis by blast
qed

text \<open>
  C4. When the synthesis call fails, \<open>generate_answer\<close> returns exactly the failure
  result: the fixed apology text, no chunks, no expanded queries, no sources, no link and
  \<open>success = False\<close>. The same holds for every exception raised in its \<open>try\<close> block, so
  no exception reaches the caller: the result is the failure result or a result with
  \<open>success = True\<close>.
\<close>

theorem synthesis_failure_returns_apology:
  fixes S :: "('s::{linorder, order_top}) services"
  shows
  "((\<exists>pool ctx e. all_chunks S (search_queries S q) k uc = Inr pool
        \<and> format_context (top_unique_chunks (unique_chunks pool) k) = Inr ctx
        \<and> synthesis_reply S m t (prompt_suffix mi h) ctx q = Inl e)
      \<longrightarrow> generate_answer S q h k m t mi uc = failure_result)
   \<and> ((\<forall>ctx. isl (synthesis_reply S m t (prompt_suffix mi h) ctx q))
      \<longrightarrow> generate_answer S q h k m t mi uc = failure_result)
   \<and> ((\<exists>e. generate_answer_try S q h k m t mi uc = Inl e)
      \<longrightarrow> generate_answer S q h k m t mi uc = failure_result)
   \<and> (failure_result :: 's answer_result) =
        \<lparr>answer = Some ''I apologize, but I encountered an error while processing your request.'',
         chunks = [], expanded_queries = [], sources = [], relevant_links = [],
         success = False\<rparr>
   \<and> (generate_answer S q h k m t mi uc = failure_result
        \<or> success (generate_answer S q h k m t mi uc))"
proof -
  have a: "(\<exists>pool ctx e. all_chunks S (search_queries S q) k uc = Inr pool
        \<and> format_context (top_unique_chunks (unique_chunks pool) k) = Inr ctx
        \<and> synthesis_reply S m t (prompt_suffix mi h) ctx q = Inl e)
      \<longrightarrow> generate_answer S q h k m t mi uc = failure_result"
    using synthesis_Inl_fails by blast
  have b: "(\<forall>ctx. isl (synthesis_reply S m t (prompt_suffix mi h) ctx q))
      \<longrightarrow> generate_answer S q h k m t mi uc = failure_result"
    using synthesis_always_Inl_fails by blast
  have c: "(\<exists>e. generate_answer_try S q h k m t mi uc = Inl e)
      \<longrightarrow> generate_answer S q h k m t mi uc = failure_result"
    using generate_answer_try_Inl by blast
  have d: "(failure_result :: 's answer_result) =
        \<lparr>answer = Some ''I apologize, but I encountered an error while processing your request.'',
         chunks = [], expanded_queries = [], sources = [], relevant_links = [],
         success = False\<rparr>"
    by (simp add: failure_result_def)
  have e: "generate_answer S q h k m t mi uc = failure_result
        \<or> success (generate_answer S q h k m t mi uc)"
    using generate_answer_cases [of S q h k m t mi uc] by auto
  show ?thesis by (intro conjI) (fact a b c d e)+
qed

theorem synthesis_failure_returns_apology_witness:
  "(\<forall>ctx. isl (synthesis_reply
        (example_services (Inr (Some ''1. other wording''))
           (\<lambda>i. Inr [example_chunk ''a'' ''some text'' 1 True])
           (Inl (CallFailure ''rate limit'')) (Inr (Some ''water'')))
        ''model'' 0 (prompt_suffix None None) ctx ''question''))
   \<and> generate_answer
        (example_services (Inr (Some ''1. other wording''))
           (\<lambda>i. Inr [example_chunk ''a'' ''some text'' 1 True])
           (Inl (CallFailure ''rate limit'')) (Inr (Some ''water'')))
        ''question'' None 3 ''model'' 0 None ''0''
     = \<lparr>answer = Some ''I apologize, but I encountered an error while processing your request.'',
        chunks = [], expanded_queries = [], sources = [], relevant_links = [],
        success = False\<rparr>"
proof -
  let ?S = "example_services (Inr (Some ''1. other wording''))
           (\<lambda>i. Inr [example_chunk ''a'' ''some text'' 1 True])
           (Inl (CallFailure ''rate limit'')) (Inr (Some ''water''))"
  have h: "\<forall>ctx. isl (synthesis_reply ?S ''model'' 0 (prompt_suffix None None) ctx ''question'')"
    by (simp add: example_services_def)
  note T = synthesis_failure_returns_apology
    [where S = ?S and q = "''question''" and h = None and k = 3 and m = "''model''" and t = 0
       and mi = None and uc = "''0''"]
  from T [THEN conjunct2, THEN conjunct1, THEN mp, OF h]
       T [THEN conjunct2, THEN conjunct2, THEN conjunct2, THEN conjunct1]
  have "generate_answer ?S ''question'' None 3 ''model'' 0 None ''0''
     = \<lparr>answer = Some ''I apologize, but I encountered an error while processing your request.'',
        chunks = [], expanded_queries = [], sources = [], relevant_links = [],
        success = False\<rparr>"
    by (rule trans)
  with h show ?thesis by (intro conjI)
qed

text \<open>
  C1 does not hold as stated. With the queries \<open>question\<close> and \<open>other wording\<close>, the
  search for the first returning a chunk and the search for the second failing, the
  fan-out yields the exception and no chunk, and \<open>generate_answer\<close> returns the failure
  result without the chunk of the succeeding query.
\<close>

theorem failed_search_counterexample:
  "search_queries
      (example_services (Inr (Some ''1. other wording''))
         (\<lambda>i. if i = 0 then Inr [example_chunk ''a'' ''some text'' 1 True]
              else Inl (CallFailure ''timeout''))
         (Inr (Some ''text of the answer'')) (Inr (Some ''none'')))
      ''question''
     = [''question'', ''other wording'']
   \<and> search_all_documents
      (example_services (Inr (Some ''1. other wording''))
         (\<lambda>i. if i = 0 then Inr [example_chunk ''a'' ''some text'' 1 True]
              else Inl (CallFailure ''timeout''))
         (Inr (Some ''text of the answer'')) (Inr (Some ''none'')))
      0 ''question'' 3 ''0''
     = Inr [example_chunk ''a'' ''some text'' 1 True]
   \<and> search_all_documents
      (example_services (Inr (Some ''1. other wording''))
         (\<lambda>i. if i = 0 then Inr [example_chunk ''a'' ''some text'' 1 True]
              else Inl (CallFailure ''timeout''))
         (Inr (Some ''text of the answer'')) (Inr (Some ''none'')))
      1 ''other wording'' 3 ''0''
     = Inl (CallFailure ''timeout'')
   \<and> all_chunks
      (example_services (Inr (Some ''1. other wording''))
         (\<lambda>i. if i = 0 then Inr [example_chunk ''a'' ''some text'' 1 True]
              else Inl (CallFailure ''timeout''))
         (Inr (Some ''text of the answer'')) (Inr (Some ''none'')))
      [''question'', ''other wording''] 3 ''0''
     = Inl (CallFailure ''timeout'')
   \<and> chunks (generate_answer
      (example_services (Inr (Some ''1. other wording''))
         (\<lambda>i. if i = 0 then Inr [example_chunk ''a'' ''some text'' 1 True]
              else Inl (CallFailure ''timeout''))
         (Inr (Some ''text of the answer'')) (Inr (Some ''none'')))
      ''question'' None 3 ''model'' 0 None ''0'')
     = []
   \<and> \<not> success (generate_answer
      (example_services (Inr (Some ''1. other wording''))
         (\<lambda>i. if i = 0 then Inr [example_chunk ''a'' ''some text'' 1 True]
              else Inl (CallFailure ''timeout''))
         (Inr (Some ''text of the answer'')) (Inr (Some ''none'')))
      ''question'' None 3 ''model'' 0 None ''0'')"
proof -
  let ?S = "example_services (Inr (Some ''1. other wording''))
         (\<lambda>i. if i = 0 then Inr [example_chunk ''a'' ''some text'' 1 True]
              else Inl (CallFailure ''timeout''))
         (Inr (Some ''text of the answer'')) (Inr (Some ''none''))"
  have strip: "py_strip ''1. other wording'' = ''1. other wording''"
    by (simp add: py_strip_plain isspace_def py_whitespace_def)
  have strip2: "py_strip '' other wording'' = ''other wording''"
    by (simp add: py_strip_def py_lstrip_def py_rstrip_def isspace_def py_whitespace_def)
  have line: "parse_line ''1. other wording'' = Some ''other wording''"
    by (simp add: parse_line_def strip strip_numbering_def isdigit_def after_first_def strip2
        strip_quotes_def startswith_def endswith_def)
  have ex: "expand_query ?S ''question'' 4 = [''other wording'']"
    by (simp add: expand_query_def expand_query_try_def example_services_def strip
        parse_expanded_def line slice_to_def)
  have sq: "search_queries ?S ''question'' = [''question'', ''other wording'']"
    by (simp add: search_queries_def ex)
  have s0: "search_all_documents ?S 0 ''question'' 3 ''0''
     = Inr [example_chunk ''a'' ''some text'' 1 True]"
    by (simp add: example_services_def)
  have s1: "search_all_documents ?S 1 ''other wording'' 3 ''0'' = Inl (CallFailure ''timeout'')"
    by (simp add: example_services_def)
  have tasks: "search_tasks ?S [''question'', ''other wording''] 3 ''0''
       = [Inr [example_chunk ''a'' ''some text'' 1 True], Inl (CallFailure ''timeout'')]"
    by (simp add: search_tasks_nth example_services_def upt_rec)
  have ac: "all_chunks ?S [''question'', ''other wording''] 3 ''0'' = Inl (CallFailure ''timeout'')"
    by (simp add: all_chunks_def tasks)
  have ga: "generate_answer ?S ''question'' None 3 ''model'' 0 None ''0'' = failure_result"
    by (rule all_chunks_Inl_fails) (simp add: sq ac)
  have c: "chunks (generate_answer ?S ''question'' None 3 ''model'' 0 None ''0'') = []"
    by (simp add: ga failure_result_def)
  have f: "\<not> success (generate_answer ?S ''question'' None 3 ''model'' 0 None ''0'')"
    by (simp add: ga failure_result_def)
  show ?thesis
    by (intro conjI) (fact sq s0 s1 ac c f)+
qed

text \<open>
  C1, amended. When the retrieval call for one of the queries fails, the fan-out aborts
  the whole batch: it yields an exception and no chunk of any query, and
  \<open>generate_answer\<close> returns the failure result, with no chunks and \<open>success = False\<close>.
  Only when the retrieval call of every query succeeds is the evidence passed to the
  deduplication the concatenation of the chunks of all queries, in the order of the
  queries.
\<close>

theorem failed_search_aborts_batch:
  fixes S :: "('s::{linorder, order_top}) services"
  shows
  "(\<forall>i e. i < length qs \<and> search_all_documents S i (qs ! i) k uc = Inl e
       \<longrightarrow> (\<exists>e'. all_chunks S qs k uc = Inl e'))
   \<and> (\<forall>i e. i < length (search_queries S q)
          \<and> search_all_documents S i (search_queries S q ! i) k uc = Inl e
       \<longrightarrow> generate_answer S q h k m t mi uc = failure_result
           \<and> chunks (generate_answer S q h k m t mi uc) = []
           \<and> \<not> success (generate_answer S q h k m t mi uc))
   \<and> ((\<forall>i < length qs. \<not> isl (search_all_documents S i (qs ! i) k uc))
       \<longrightarrow> all_chunks S qs k uc =
             Inr (concat (map (\<lambda>i. projr (search_all_documents S i (qs ! i) k uc))
                              [0..<length qs])))"
proof -
  have a: "\<forall>i e. i < length qs \<and> search_all_documents S i (qs ! i) k uc = Inl e
       \<longrightarrow> (\<exists>e'. all_chunks S qs k uc = Inl e')"
    using all_chunks_aborts [of _ qs S k uc] by blast
  have b: "\<forall>i e. i < length (search_queries S q)
          \<and> search_all_documents S i (search_queries S q ! i) k uc = Inl e
       \<longrightarrow> generate_answer S q h k m t mi uc = failure_result
           \<and> chunks (generate_answer S q h k m t mi uc) = []
           \<and> \<not> success (generate_answer S q h k m t mi uc)"
  proof (intro allI impI)
    fix i e
    assume "i < length (search_queries S q)
          \<and> search_all_documents S i (search_queries S q ! i) k uc = Inl e"
    then obtain e' where "all_chunks S (search_queries S q) k uc = Inl e'"
      using all_chunks_aborts [of i "search_queries S q" S k uc e] by blast
    then have "generate_answer S q h k m t mi uc = failure_result"
      by (rule all_chunks_Inl_fails)
    then show "generate_answer S q h k m t mi uc = failure_result
           \<and> chunks (generate_answer S q h k m t mi uc) = []
           \<and> \<not> success (generate_answer S q h k m t mi uc)"
      by (simp add: failure_result_def)
  qed
  have c: "(\<forall>i < length qs. \<not> isl (search_all_documents S i (qs ! i) k uc))
       \<longrightarrow> all_chunks S qs k uc =
             Inr (concat (map (\<lambda>i. projr (search_all_documents S i (qs ! i) k uc))
                              [0..<length qs]))"
    using all_chunks_succeeds [of qs S k uc] by blast
  show ?thesis by (intro conjI) (fact a b c)+
qed

theorem failed_search_aborts_batch_witness:
  "(1::nat) < length [''question'', ''other wording'']
   \<and> search_all_documents
        (example_services (Inl (CallFailure ''down''))
           (\<lambda>i. if i = 0 then Inr [example_chunk ''a'' ''some text'' 1 True]
                else Inl (CallFailure ''timeout''))
           (Inr (Some ''text of the answer'')) (Inr (Some ''none'')))
        1 ([''question'', ''other wording''] ! 1) 3 ''0''
      = Inl (CallFailure ''timeout'')
   \<and> (\<exists>e'. all_chunks
        (example_services (Inl (CallFailure ''down''))
           (\<lambda>i. if i = 0 then Inr [example_chunk ''a'' ''some text'' 1 True]
                else Inl (CallFailure ''timeout''))
           (Inr (Some ''text of the answer'')) (Inr (Some ''none'')))
        [''question'', ''other wording''] 3 ''0'' = Inl e')"
proof -
  let ?S = "example_services (Inl (CallFailure ''down''))
           (\<lambda>i. if i = 0 then Inr [example_chunk ''a'' ''some text'' 1 True]
                else Inl (CallFailure ''timeout''))
           (Inr (Some ''text of the answer'')) (Inr (Some ''none''))"
  have h: "(1::nat) < length [''question'', ''other wording'']
     \<and> search_all_documents ?S 1 ([''question'', ''other wording''] ! 1) 3 ''0''
        = Inl (CallFailure ''timeout'')"
    by (simp add: example_services_def)
  note T = failed_search_aborts_batch
    [where S = ?S and qs = "[''question'', ''other wording'']" and k = 3 and uc = "''0''"]
  from T [THEN conjunct1, rule_format, OF h] h show ?thesis
    by (intro conjI) (simp_all only: simp_thms)
qed

section \<open>Properties of the link detection\<close>

lemma manager_links_keys: "map fst manager_links = [''water'', ''industry'', ''nature'']"
  by (simp add: manager_links_def)

lemma classify_try_cases:
  "classify_try S p =
     (case classification_reply S p of
        Inl e \<Rightarrow> Inl e
      | Inr None \<Rightarrow> Inl AttributeError
      | Inr (Some content) \<Rightarrow>
          if py_lower (py_strip content) \<in> {''water'', ''industry'', ''nature''}
          then Inr (Some (py_lower (py_strip content))) else Inr None)"
  by (simp add: classify_try_def Let_def split: sum.splits option.splits)

lemma topic_url:
  "topic \<in> {''water'', ''industry'', ''nature''} \<Longrightarrow>
   \<exists>url. map_of manager_links topic = Some url"
  by (auto simp: manager_links_def)

lemma links_of_topic:
  assumes "classification_reply S (user_prompt q (get_industry_context uc) (context_text cs))
             = Inr (Some content)"
      and "py_lower (py_strip content) \<in> {''water'', ''industry'', ''nature''}"
  shows "\<exists>url. map_of manager_links (py_lower (py_strip content)) = Some url
             \<and> get_relevant_links S q cs uc = [url]"
proof -
  from assms(2) obtain url where u: "map_of manager_links (py_lower (py_strip content)) = Some url"
    using topic_url by blast
  from assms(2) have ne: "py_lower (py_strip content) \<noteq> []" by auto
  have "classify_query_intent S q cs uc = Some (py_lower (py_strip content))"
    using assms by (simp add: classify_query_intent_def classify_try_cases)
  with u ne show ?thesis by (simp add: get_relevant_links_def)
qed

lemma links_none:
  assumes "classification_reply S (user_prompt q (get_industry_context uc) (context_text cs)) = r"
      and "isl r \<or> r = Inr None
           \<or> (\<exists>content. r = Inr (Some content)
                \<and> py_lower (py_strip content) \<notin> {''water'', ''industry'', ''nature''})"
  shows "get_relevant_links S q cs uc = []"
proof -
  have "classify_query_intent S q cs uc = None"
    using assms
    by (auto simp: classify_query_intent_def classify_try_cases split: sum.splits option.splits)
  then show ?thesis by (simp add: get_relevant_links_def)
qed

lemma links_cases:
  "get_relevant_links S q cs uc = []
   \<or> (\<exists>content url.
         classification_reply S (user_prompt q (get_industry_context uc) (context_text cs))
           = Inr (Some content)
       \<and> py_lower (py_strip content) \<in> {''water'', ''industry'', ''nature''}
       \<and> map_of manager_links (py_lower (py_strip content)) = Some url
       \<and> get_relevant_links S q cs uc = [url])"
proof (cases "classification_reply S (user_prompt q (get_industry_context uc) (context_text cs))")
  case (Inl e)
  then show ?thesis using links_none [of S q uc cs "Inl e"] by simp
next
  case (Inr r)
  show ?thesis
  proof (cases r)
    case None
    with Inr show ?thesis using links_none [of S q uc cs "Inr None"] by simp
  next
    case (Some content)
    show ?thesis
    proof (cases "py_lower (py_strip content) \<in> {''water'', ''industry'', ''nature''}")
      case True
      with Inr Some links_of_topic [of S q uc cs content] show ?thesis by blast
    next
      case False
      with Inr Some links_none [of S q uc cs "Inr (Some content)"] show ?thesis by blast
    qed
  qed
qed

text \<open>
  C8 does not hold as stated. The model output \<open>Water\<close>, with a capital letter, is not one
  of \<open>water\<close>, \<open>industry\<close>, \<open>nature\<close>, and yet it yields the link of the topic \<open>water\<close>:
  the source strips and lower-cases the output before it tests it.
\<close>

theorem water_capital_counterexample:
  "''Water'' \<notin> set [''water'', ''industry'', ''nature'']
   \<and> classification_reply
        (example_services (Inl (CallFailure ''down'')) (\<lambda>i. Inr [])
           (Inr (Some ''text of the answer'')) (Inr (Some ''Water'')))
        (user_prompt ''question'' (get_industry_context ''0'') (context_text []))
      = Inr (Some ''Water'')
   \<and> get_relevant_links
        (example_services (Inl (CallFailure ''down'')) (\<lambda>i. Inr [])
           (Inr (Some ''text of the answer'')) (Inr (Some ''Water'')))
        ''question'' [] ''0''
      = [''https://maps.wisa.bmluk.gv.at/emreg'']"
proof -
  let ?S = "example_services (Inl (CallFailure ''down'')) (\<lambda>i. Inr [])
           (Inr (Some ''text of the answer'')) (Inr (Some ''Water''))"
  have r: "classification_reply ?S p = Inr (Some ''Water'')" for p
    by (simp add: example_services_def)
  have "py_strip ''Water'' = ''Water''"
    by (simp add: py_strip_plain isspace_def py_whitespace_def)
  moreover have "py_lower ''Water'' = ''water''"
    by (simp add: py_lower_def lower_char_def upper_chars_def lower_chars_def)
  ultimately have "classify_query_intent ?S ''question'' [] ''0'' = Some ''water''"
    by (simp add: classify_query_intent_def classify_try_cases r)
  then have "get_relevant_links ?S ''question'' [] ''0'' = [''https://maps.wisa.bmluk.gv.at/emreg'']"
    by (simp add: get_relevant_links_def manager_links_def)
  with r show ?thesis by simp
qed

text \<open>
  C8, amended. The link classifier returns at most one URL. A URL it returns is the entry
  of the table of three topics for the stripped and lower-cased model output, which is
  then one of \<open>water\<close>, \<open>industry\<close>, \<open>nature\<close>; each such output yields exactly the URL of
  its topic. A model output whose stripped and lower-cased form is none of the three, an
  output without content and a failure of the call yield no link, and no error reaches the
  caller. The table has one URL per topic, and the three URLs differ.
\<close>

theorem at_most_one_link_from_table:
  "length (get_relevant_links S q cs uc) \<le> 1
   \<and> (\<forall>url. url \<in> set (get_relevant_links S q cs uc) \<longrightarrow>
         (\<exists>content.
            classification_reply S (user_prompt q (get_industry_context uc) (context_text cs))
              = Inr (Some content)
          \<and> py_lower (py_strip content) \<in> {''water'', ''industry'', ''nature''}
          \<and> map_of manager_links (py_lower (py_strip content)) = Some url))
   \<and> (\<forall>content.
         classification_reply S (user_prompt q (get_industry_context uc) (context_text cs))
           = Inr (Some content)
         \<and> py_lower (py_strip content) \<in> {''water'', ''industry'', ''nature''}
       \<longrightarrow> (\<exists>url. map_of manager_links (py_lower (py_strip content)) = Some url
                \<and> get_relevant_links S q cs uc = [url]))
   \<and> (\<forall>content.
         classification_reply S (user_prompt q (get_industry_context uc) (context_text cs))
           = Inr (Some content)
         \<and> py_lower (py_strip content) \<notin> {''water'', ''industry'', ''nature''}
       \<longrightarrow> get_relevant_links S q cs uc = [])
   \<and> (classification_reply S (user_prompt q (get_industry_context uc) (context_text cs))
         = Inr None
       \<longrightarrow> get_relevant_links S q cs uc = [])
   \<and> (\<forall>e. classification_reply S (user_prompt q (get_industry_context uc) (context_text cs))
         = Inl e
       \<longrightarrow> get_relevant_links S q cs uc = [])
   \<and> map fst manager_links = [''water'', ''industry'', ''nature'']
   \<and> distinct (map snd manager_links)"
proof -
  let ?r = "classification_reply S (user_prompt q (get_industry_context uc) (context_text cs))"
  have a: "length (get_relevant_links S q cs uc) \<le> 1"
    using links_cases [of S q cs uc] by auto
  have b: "\<forall>url. url \<in> set (get_relevant_links S q cs uc) \<longrightarrow>
         (\<exists>content. ?r = Inr (Some content)
          \<and> py_lower (py_strip content) \<in> {''water'', ''industry'', ''nature''}
          \<and> map_of manager_links (py_lower (py_strip content)) = Some url)"
    using links_cases [of S q cs uc] by auto
  have c: "\<forall>content. ?r = Inr (Some content)
         \<and> py_lower (py_strip content) \<in> {''water'', ''industry'', ''nature''}
       \<longrightarrow> (\<exists>url. map_of manager_links (py_lower (py_strip content)) = Some url
                \<and> get_relevant_links S q cs uc = [url])"
    using links_of_topic [of S q uc cs] by blast
  have d: "\<forall>content. ?r = Inr (Some content)
         \<and> py_lower (py_strip content) \<notin> {''water'', ''industry'', ''nature''}
       \<longrightarrow> get_relevant_links S q cs uc = []"
    using links_none [of S q uc cs] by blast
  have e: "?r = Inr None \<longrightarrow> get_relevant_links S q cs uc = []"
    using links_none [of S q uc cs] by blast
  have f: "\<forall>e. ?r = Inl e \<longrightarrow> get_relevant_links S q cs uc = []"
    using links_none [of S q uc cs] by (metis sum.disc(1))
  have g: "distinct (map snd manager_links)"
    by (simp add: manager_links_def)
  show ?thesis by (intro conjI) (fact a b c d e f manager_links_keys g)+
qed

theorem at_most_one_link_from_table_witness:
  "classification_reply
      (example_services (Inl (CallFailure ''down'')) (\<lambda>i. Inr [])
         (Inr (Some ''text of the answer'')) (Inr (Some ''nature'')))
      (user_prompt ''question'' (get_industry_context ''0'') (context_text []))
     = Inr (Some ''nature'')
   \<and> py_lower (py_strip ''nature'') \<in> {''water'', ''industry'', ''nature''}
   \<and> get_relevant_links
      (example_services (Inl (CallFailure ''down'')) (\<lambda>i. Inr [])
         (Inr (Some ''text of the answer'')) (Inr (Some ''nature'')))
      ''question'' [] ''0''
     = [''https://natura2000.eea.europa.eu'']"
proof -
  let ?S = "example_services (Inl (CallFailure ''down'')) (\<lambda>i. Inr [])
         (Inr (Some ''text of the answer'')) (Inr (Some ''nature''))"
  have r: "classification_reply ?S
      (user_prompt ''question'' (get_industry_context ''0'') (context_text [])) = Inr (Some ''nature'')"
    by (simp add: example_services_def)
  have "py_strip ''nature'' = ''nature''"
    by (simp add: py_strip_plain isspace_def py_whitespace_def)
  moreover have "py_lower ''nature'' = ''nature''"
    by (simp add: py_lower_def lower_char_def upper_chars_def lower_chars_def)
  ultimately have l: "py_lower (py_strip ''nature'') = ''nature''" by simp
  then have m: "py_lower (py_strip ''nature'') \<in> {''water'', ''industry'', ''nature''}" by simp
  note T = at_most_one_link_from_table
    [where S = ?S and q = "''question''" and cs = "[]" and uc = "''0''"]
  from T [THEN conjunct2, THEN conjunct2, THEN conjunct1, rule_format, OF conjI, OF r m]
  obtain url where "map_of manager_links (py_lower (py_strip ''nature'')) = Some url"
    and "get_relevant_links ?S ''question'' [] ''0'' = [url]" by blast
  then have "get_relevant_links ?S ''question'' [] ''0'' = [''https://natura2000.eea.europa.eu'']"
    by (simp add: l manager_links_def)
  with r m show ?thesis by (intro conjI)
qed

section \<open>Properties of the query expansion\<close>

lemma py_rstrip_Cons:
  "py_rstrip (c # s) = (if isspace c \<and> py_rstrip s = [] then [] else c # py_rstrip s)"
proof (cases "\<forall>x \<in> set (rev s). isspace x")
  case True
  then have "py_rstrip s = []"
    by (simp add: py_rstrip_def dropWhile_eq_Nil_conv)
  moreover have "py_rstrip (c # s) = rev (dropWhile isspace [c])"
    using True by (simp add: py_rstrip_def dropWhile_append)
  ultimately show ?thesis by simp
next
  case False
  then have "py_rstrip s \<noteq> []"
    by (simp add: py_rstrip_def dropWhile_eq_Nil_conv)
  moreover have "py_rstrip (c # s) = c # py_rstrip s"
    using False by (simp add: py_rstrip_def dropWhile_append)
  ultimately show ?thesis by simp
qed

lemma py_rstrip_Nil: "py_rstrip [] = []"
  by (simp add: py_rstrip_def)

lemma py_rstrip_idem: "py_rstrip (py_rstrip s) = py_rstrip s"
  by (simp add: py_rstrip_def)

lemma py_lstrip_rstrip: "py_lstrip (py_rstrip s) = py_rstrip (py_lstrip s)"
proof (induction s)
  case Nil
  show ?case by (simp add: py_lstrip_def py_rstrip_def)
next
  case (Cons c s)
  show ?case
  proof (cases "isspace c")
    case True
    have r: "py_rstrip (py_lstrip (c # s)) = py_lstrip (py_rstrip s)"
      using True Cons.IH by (simp add: py_lstrip_def)
    show ?thesis
    proof (cases "py_rstrip s = []")
      case e: True
      with True have "py_lstrip (py_rstrip (c # s)) = []"
        by (simp add: py_rstrip_Cons py_lstrip_def)
      with r e show ?thesis by (simp add: py_lstrip_def)
    next
      case ne: False
      with True have "py_lstrip (py_rstrip (c # s)) = py_lstrip (py_rstrip s)"
        by (simp add: py_rstrip_Cons py_lstrip_def)
      with r show ?thesis by simp
    qed
  next
    case False
    then show ?thesis by (simp add: py_rstrip_Cons py_lstrip_def)
  qed
qed

lemma py_strip_rstrip: "py_strip (py_rstrip s) = py_strip s"
  by (simp add: py_strip_def py_lstrip_rstrip py_rstrip_idem)

lemma py_strip_Cons_plain: "\<not> isspace c \<Longrightarrow> py_strip (c # s) = c # py_rstrip s"
  by (simp add: py_strip_def py_lstrip_def py_rstrip_Cons)

lemma isdigit_plain: "isdigit d \<Longrightarrow> \<not> isspace d \<and> d \<noteq> CHR ''.''"
  by (auto simp: isdigit_def isspace_def py_whitespace_def)

lemma dot_plain: "\<not> isspace CHR ''.''"
  by (simp add: isspace_def py_whitespace_def)

lemma parse_line_numbered:
  assumes "isdigit d"
  shows "parse_line (d # CHR ''.'' # rest)
           = Some (strip_quotes (CHR 0x27) (strip_quotes (CHR 0x22) (py_strip rest)))"
proof -
  from assms have d: "\<not> isspace d" "d \<noteq> CHR ''.''" using isdigit_plain by auto
  have s: "py_strip (d # CHR ''.'' # rest) = d # CHR ''.'' # py_rstrip rest"
    using d dot_plain by (simp add: py_strip_Cons_plain py_rstrip_Cons)
  have "strip_numbering (d # CHR ''.'' # py_rstrip rest) = py_strip rest"
    using assms d by (simp add: strip_numbering_def after_first_def py_strip_rstrip)
  then show ?thesis by (simp add: parse_line_def s)
qed

lemma parse_line_numbered2:
  assumes "isdigit d" and "isdigit d'"
  shows "parse_line (d # d' # CHR ''.'' # rest)
           = Some (strip_quotes (CHR 0x27) (strip_quotes (CHR 0x22) (py_strip rest)))"
proof -
  from assms have d: "\<not> isspace d" "d \<noteq> CHR ''.''" "\<not> isspace d'" "d' \<noteq> CHR ''.''"
    using isdigit_plain by auto
  have s: "py_strip (d # d' # CHR ''.'' # rest) = d # d' # CHR ''.'' # py_rstrip rest"
    using d dot_plain by (simp add: py_strip_Cons_plain py_rstrip_Cons)
  have "strip_numbering (d # d' # CHR ''.'' # py_rstrip rest) = py_strip rest"
    using assms d by (simp add: strip_numbering_def after_first_def py_strip_rstrip)
  then show ?thesis by (simp add: parse_line_def s)
qed

lemma parse_line_None: "parse_line line = None \<longleftrightarrow> py_strip line = []"
  by (simp add: parse_line_def Let_def)

lemma strip_quotes_pair: "strip_quotes qc (qc # body @ [qc]) = body"
  by (simp add: strip_quotes_def startswith_def endswith_def slice_inner_def butlast_append)

lemma parse_expanded_fold:
  "fold (\<lambda>line expanded. case parse_line line of None \<Rightarrow> expanded | Some q \<Rightarrow> expanded @ [q])
        lines acc = acc @ List.map_filter parse_line lines"
  by (induction lines arbitrary: acc) (auto simp: List.map_filter_simps split: option.splits)

lemma parse_expanded_map_filter: "parse_expanded lines = List.map_filter parse_line lines"
  by (simp add: parse_expanded_def parse_expanded_fold)

lemma length_slice_to_nat: "0 \<le> n \<Longrightarrow> length (slice_to xs n) \<le> nat n"
  by (simp add: slice_to_def)

lemma expand_query_cases:
  "expand_query S q n =
     (case expansion_reply S q n of
        Inl e \<Rightarrow> []
      | Inr None \<Rightarrow> []
      | Inr (Some content) \<Rightarrow>
          slice_to (List.map_filter parse_line (py_split (py_strip content) (CHR 0x0A))) n)"
  by (simp add: expand_query_def expand_query_try_def Let_def parse_expanded_map_filter
      split: sum.splits option.splits)

lemma expand_query_length: "0 \<le> n \<Longrightarrow> length (expand_query S q n) \<le> nat n"
  by (simp add: expand_query_cases length_slice_to_nat split: sum.splits option.splits)

lemma all_chunks_single: "all_chunks S [q] k uc = search_all_documents S 0 q k uc"
  by (simp add: all_chunks_def search_tasks_nth split: sum.splits)

lemma parse_line_paren: "parse_line ''2) beta'' = Some ''2) beta''"
proof -
  have "py_strip ''2) beta'' = ''2) beta''"
    by (simp add: py_strip_plain isspace_def py_whitespace_def)
  then show ?thesis
    by (simp add: parse_line_def strip_numbering_def strip_quotes_def startswith_def endswith_def)
qed

text \<open>
  C5 does not hold as stated. A line numbered \<open>2)\<close> keeps its numbering: only a dot among
  the first three characters makes the source remove it. And with \<open>n = -1\<close> a reply of two
  lines yields one string, which is more than \<open>n\<close>: the slice \<open>[:n]\<close> then drops the last
  element.
\<close>

theorem expand_query_counterexample:
  "expand_query
      (example_services (Inr (Some ''2) beta'')) (\<lambda>i. Inr [])
         (Inr (Some ''text of the answer'')) (Inr (Some ''none'')))
      ''question'' 4
     = [''2) beta'']
   \<and> expand_query
      (example_services (Inr (Some (''alpha'' @ [CHR 0x0A] @ ''beta''))) (\<lambda>i. Inr [])
         (Inr (Some ''text of the answer'')) (Inr (Some ''none'')))
      ''question'' (- 1)
     = [''alpha'']
   \<and> \<not> int (length [''alpha'']) \<le> - 1"
proof -
  have s1: "py_strip ''2) beta'' = ''2) beta''"
    by (simp add: py_strip_plain isspace_def py_whitespace_def)
  have a: "expand_query
      (example_services (Inr (Some ''2) beta'')) (\<lambda>i. Inr [])
         (Inr (Some ''text of the answer'')) (Inr (Some ''none'')))
      ''question'' 4 = [''2) beta'']"
    by (simp add: expand_query_cases example_services_def s1 List.map_filter_simps
        parse_line_paren slice_to_def)
  have s2: "py_strip (''alpha'' @ [CHR 0x0A] @ ''beta'') = ''alpha'' @ [CHR 0x0A] @ ''beta''"
    by (simp add: py_strip_plain isspace_def py_whitespace_def)
  have s3: "py_strip ''alpha'' = ''alpha''" "py_strip ''beta'' = ''beta''"
    by (simp_all add: py_strip_plain isspace_def py_whitespace_def)
  have l: "parse_line ''alpha'' = Some ''alpha''" "parse_line ''beta'' = Some ''beta''"
    by (simp_all add: parse_line_def s3 strip_numbering_def isdigit_def strip_quotes_def
        startswith_def endswith_def)
  have sp: "py_split (''alpha'' @ [CHR 0x0A] @ ''beta'') (CHR 0x0A) = [''alpha'', ''beta'']"
    by simp
  have b: "expand_query
      (example_services (Inr (Some (''alpha'' @ [CHR 0x0A] @ ''beta''))) (\<lambda>i. Inr [])
         (Inr (Some ''text of the answer'')) (Inr (Some ''none'')))
      ''question'' (- 1) = [''alpha'']"
    by (simp add: expand_query_cases example_services_def s2 [simplified] sp [simplified]
        List.map_filter_simps l slice_to_def)
  have c: "\<not> int (length [''alpha'']) \<le> - 1" by simp
  show ?thesis by (intro conjI) (fact a b c)+
qed

text \<open>
  C5, amended. For \<open>n \<ge> 0\<close>, \<open>expand_query\<close> returns at most \<open>n\<close> strings: the first \<open>n\<close> of
  the parsed non-blank lines of the stripped reply, in order; a line is discarded exactly
  when it is blank. A line that starts with one or two digits and a dot loses this
  numbering (a numbering such as \<open>2)\<close> is kept), and a pair of surrounding quote
  characters is removed. When the call fails or its reply has no content, the result is
  the empty list and nothing is raised; the first search query is always the original
  query, and after a failed expansion it is the only one, so that the pool of evidence is
  what the search for the original query returns.
\<close>

theorem expand_query_contract:
  "(0 \<le> n \<longrightarrow> length (expand_query S q n) \<le> nat n)
   \<and> (\<forall>content. expansion_reply S q n = Inr (Some content) \<longrightarrow>
         expand_query S q n =
           slice_to (List.map_filter parse_line (py_split (py_strip content) (CHR 0x0A))) n)
   \<and> (parse_line line = None \<longleftrightarrow> py_strip line = [])
   \<and> (isdigit d \<longrightarrow>
         parse_line (d # CHR ''.'' # rest)
           = Some (strip_quotes (CHR 0x27) (strip_quotes (CHR 0x22) (py_strip rest))))
   \<and> (isdigit d \<and> isdigit d' \<longrightarrow>
         parse_line (d # d' # CHR ''.'' # rest)
           = Some (strip_quotes (CHR 0x27) (strip_quotes (CHR 0x22) (py_strip rest))))
   \<and> strip_quotes qc (qc # body @ [qc]) = body
   \<and> parse_line ''2) beta'' = Some ''2) beta''
   \<and> (isl (expansion_reply S q n) \<or> expansion_reply S q n = Inr None \<longrightarrow>
         expand_query S q n = [])
   \<and> hd (search_queries S q) = q
   \<and> (isl (expansion_reply S q 4) \<or> expansion_reply S q 4 = Inr None \<longrightarrow>
         search_queries S q = [q]
         \<and> all_chunks S (search_queries S q) k uc = search_all_documents S 0 q k uc)"
proof -
  have a: "0 \<le> n \<longrightarrow> length (expand_query S q n) \<le> nat n"
    using expand_query_length by blast
  have b: "\<forall>content. expansion_reply S q n = Inr (Some content) \<longrightarrow>
         expand_query S q n =
           slice_to (List.map_filter parse_line (py_split (py_strip content) (CHR 0x0A))) n"
    by (simp add: expand_query_cases)
  have c: "isdigit d \<longrightarrow>
         parse_line (d # CHR ''.'' # rest)
           = Some (strip_quotes (CHR 0x27) (strip_quotes (CHR 0x22) (py_strip rest)))"
    using parse_line_numbered by blast
  have d: "isdigit d \<and> isdigit d' \<longrightarrow>
         parse_line (d # d' # CHR ''.'' # rest)
           = Some (strip_quotes (CHR 0x27) (strip_quotes (CHR 0x22) (py_strip rest)))"
    using parse_line_numbered2 by blast
  have fail: "expand_query S q n = []"
    if "isl (expansion_reply S q n) \<or> expansion_reply S q n = Inr None" for n
    using that by (auto simp: expand_query_cases split: sum.splits)
  then have e: "isl (expansion_reply S q n) \<or> expansion_reply S q n = Inr None \<longrightarrow>
         expand_query S q n = []"
    by blast
  have f: "hd (search_queries S q) = q"
    by (simp add: search_queries_def)
  have g: "isl (expansion_reply S q 4) \<or> expansion_reply S q 4 = Inr None \<longrightarrow>
         search_queries S q = [q]
         \<and> all_chunks S (search_queries S q) k uc = search_all_documents S 0 q k uc"
    using fail [of 4] by (simp add: search_queries_def all_chunks_single)
  show ?thesis
    by (intro conjI) (fact a b parse_line_None c d strip_quotes_pair parse_line_paren e f g)+
qed

theorem expand_query_contract_witness:
  "(0::int) \<le> 1
   \<and> length (expand_query
        (example_services (Inr (Some (''1. alpha'' @ [CHR 0x0A] @ ''2. beta''))) (\<lambda>i. Inr [])
           (Inr (Some ''text of the answer'')) (Inr (Some ''none'')))
        ''question'' 1) \<le> nat 1
   \<and> isdigit CHR ''1''
   \<and> parse_line (CHR ''1'' # CHR ''.'' # '' alpha'')
       = Some (strip_quotes (CHR 0x27) (strip_quotes (CHR 0x22) (py_strip '' alpha'')))
   \<and> isl (expansion_reply
        (example_services (Inl (CallFailure ''down'')) (\<lambda>i. Inr [])
           (Inr (Some ''text of the answer'')) (Inr (Some ''none'')))
        ''question'' 4)
   \<and> search_queries
        (example_services (Inl (CallFailure ''down'')) (\<lambda>i. Inr [])
           (Inr (Some ''text of the answer'')) (Inr (Some ''none'')))
        ''question''
       = [''question'']"
proof -
  let ?S = "example_services (Inr (Some (''1. alpha'' @ [CHR 0x0A] @ ''2. beta''))) (\<lambda>i. Inr [])
           (Inr (Some ''text of the answer'')) (Inr (Some ''none''))"
  let ?F = "example_services (Inl (CallFailure ''down'')) (\<lambda>i. Inr [])
           (Inr (Some ''text of the answer'')) (Inr (Some ''none''))"
  have h1: "(0::int) \<le> 1" by simp
  have h2: "isdigit CHR ''1''" by (simp add: isdigit_def)
  have h3: "isl (expansion_reply ?F ''question'' 4) \<or> expansion_reply ?F ''question'' 4 = Inr None"
    by (simp add: example_services_def)
  then have h3': "isl (expansion_reply ?F ''question'' 4)"
    by (simp add: example_services_def)
  note T = expand_query_contract [where S = ?S and q = "''question''" and n = 1
      and d = "CHR ''1''" and rest = "'' alpha''"]
  note F = expand_query_contract [where S = ?F and q = "''question''" and k = 3 and uc = "''0''"]
  note c1 = T [THEN conjunct1, THEN mp, OF h1]
  note c2 = T [THEN conjunct2, THEN conjunct2, THEN conjunct2, THEN conjunct1, THEN mp, OF h2]
  note c3 = F [THEN conjunct2, THEN conjunct2, THEN conjunct2, THEN conjunct2, THEN conjunct2,
      THEN conjunct2, THEN conjunct2, THEN conjunct2, THEN conjunct2, THEN mp, OF h3,
      THEN conjunct1]
  show ?thesis by (intro conjI) (fact h1 c1 h2 c2 h3' c3)+
qed


end
